theory Spec2Isabelle
  imports Complex_Main
begin

section \<open>Values of the program\<close>

text \<open>
  The program is one React component, \<^verbatim>\<open>App\<close> in \<^verbatim>\<open>src/App.js\<close>. Its handlers are
  functions declared in the component body, so each of them closes over the constants of
  the render that created it (\<^verbatim>\<open>steps\<close>, \<^verbatim>\<open>bpm\<close>, \<^verbatim>\<open>volume\<close>, ...), while the refs
  (\<^verbatim>\<open>useRef\<close>) are mutable cells shared by all renders. The model keeps the two apart: a
  handler takes the \<open>render\<close> it closes over as its first argument, and the refs, the
  audio nodes and the pending timers live in the \<open>state\<close>. The callback given to
  \<^verbatim>\<open>setTimeout\<close> is created inside \<^verbatim>\<open>nextStep\<close> and calls \<^verbatim>\<open>nextStep\<close> of the same
  render, so a timer carries the render of the tick that set it.

  JavaScript numbers are modelled as reals: arithmetic is exact, rounding is abstracted
  away. An index can be \<^verbatim>\<open>NaN\<close> (the remainder by an empty array's length), so indices
  have a type of their own.
\<close>

datatype jsidx = Ix int | NaN

text \<open>What the property read \<^verbatim>\<open>NOTE_FREQS[note]\<close> can yield: a number of the table, or an
  object (a member every object inherits from \<^verbatim>\<open>Object.prototype\<close>).\<close>

datatype jsval = Num real | Obj

text \<open>The options of the waveform select (lines 329-331).\<close>

datatype oscillator_type = Sine | Sawtooth | Triangle

datatype js_error = TypeError

datatype outcome = Returned | Threw js_error

record adsr_params =
  adsr_a :: real
  adsr_d :: real
  adsr_s :: real
  adsr_r :: real

text \<open>The \<^verbatim>\<open>useState\<close> values one render sees (lines 97-104); \<open>filter_hz\<close> is the
  source's \<^verbatim>\<open>filter\<close>.\<close>

record render =
  waveform :: oscillator_type
  steps :: "string list"
  bpm :: real
  volume :: real
  filter_hz :: real
  adsr :: adsr_params
  reverb :: real

subsection \<open>Audio nodes and timers\<close>

text \<open>
  The Web Audio API and the timer API are the environment. A node is modelled by what the
  program assigns to it and calls on it: its type, the \<^verbatim>\<open>value\<close> attribute of its
  parameter (frequency for an oscillator or filter, gain for a gain node), the timeline of
  that parameter, the targets it is connected to, and the times given to \<^verbatim>\<open>start\<close>
  and \<^verbatim>\<open>stop\<close>. The timeline is the list of the points put on the parameter, in the
  order of the calls that put them there and without those a cancellation removed; a point
  is put there by \<^verbatim>\<open>setValueAtTime\<close>, by \<^verbatim>\<open>linearRampToValueAtTime\<close> and by a
  write to \<^verbatim>\<open>value\<close>. The impulse response of the convolver (lines 44-55) is random
  noise and is not part of the model.

  Where the program hands the API something it rejects with a \<^verbatim>\<open>TypeError\<close> (a null
  ref dereferenced or connected to, a frequency that is not a number), the model raises.
  The API also rejects a negative time and \<^verbatim>\<open>stop\<close> before \<^verbatim>\<open>start\<close>; neither
  occurs in a running component (\<open>reachable_times\<close> and \<open>reachable_wf\<close> below), and
  the model has no branch for them.
\<close>

datatype node_kind = OscillatorNode | GainNode | BiquadFilterNode | ConvolverNode | Unallocated

datatype target = ToNode nat | Destination

datatype automation = SetValueAtTime real real | LinearRampToValueAtTime real real

fun event_time :: "automation \<Rightarrow> real" where
  "event_time (SetValueAtTime v t) = t"
| "event_time (LinearRampToValueAtTime v t) = t"

record audio_node =
  kind :: node_kind
  osc_type :: oscillator_type
  filter_type :: string
  param_value :: real
  events :: "automation list"
  outputs :: "target list"
  start_time :: "real option"
  stop_time :: "real option"

text \<open>A pending \<^verbatim>\<open>setTimeout\<close>: the delay passed, and the closure of the callback of
  lines 252-256, which holds the render of the \<^verbatim>\<open>nextStep\<close> that created it and its
  \<^verbatim>\<open>idx\<close>.\<close>

record timer =
  delay :: real
  t_env :: render
  t_idx :: jsidx

record state =
  ui :: render
  playing :: bool
  currentStep :: jsidx
  playingRef :: bool
  audioCtxRef :: bool
  dryGainRef :: "nat option"
  wetGainRef :: "nat option"
  convolverRef :: "nat option"
  stepTimerRef :: "nat option"
  lastGainRef :: "nat option"
  lastOscRef :: "nat option"
  lastFilterRef :: "nat option"
  currentTime :: real
  nodes :: "nat \<Rightarrow> audio_node"
  next_node :: nat
  timers :: "nat \<Rightarrow> timer option"
  next_timer :: nat

section \<open>Constants and helpers of the source\<close>

definition NOTE_LIST :: "string list" where
  "NOTE_LIST =
    [''C3'', ''C#3'', ''D3'', ''D#3'', ''E3'', ''F3'', ''F#3'', ''G3'', ''G#3'', ''A3'', ''A#3'', ''B3'',
     ''C4'', ''C#4'', ''D4'', ''D#4'', ''E4'', ''F4'', ''F#4'', ''G4'', ''G#4'', ''A4'', ''A#4'', ''B4'',
     ''C5'', ''C#5'', ''D5'', ''D#5'', ''E5'', ''F5'', ''F#5'', ''G5'']"

definition NOTE_FREQS :: "(string \<times> real) list" where
  "NOTE_FREQS =
    [(''C3'', 130.81), (''C#3'', 138.59), (''D3'', 146.83), (''D#3'', 155.56),
     (''E3'', 164.81), (''F3'', 174.61), (''F#3'', 185.00), (''G3'', 196.00),
     (''G#3'', 207.65), (''A3'', 220.00), (''A#3'', 233.08), (''B3'', 246.94),
     (''C4'', 261.63), (''C#4'', 277.18), (''D4'', 293.66), (''D#4'', 311.13),
     (''E4'', 329.63), (''F4'', 349.23), (''F#4'', 369.99), (''G4'', 392.00),
     (''G#4'', 415.30), (''A4'', 440.00), (''A#4'', 466.16), (''B4'', 493.88),
     (''C5'', 523.25), (''C#5'', 554.37), (''D5'', 587.33), (''D#5'', 622.25),
     (''E5'', 659.25), (''F5'', 698.46), (''F#5'', 739.99), (''G5'', 783.99)]"

text \<open>\<^verbatim>\<open>NOTE_FREQS\<close> is an object literal, so a property read that misses the table goes on
  to \<^verbatim>\<open>Object.prototype\<close>; these are its property names.\<close>

definition Object_prototype_names :: "string list" where
  "Object_prototype_names =
    [''constructor'', ''hasOwnProperty'', ''isPrototypeOf'', ''propertyIsEnumerable'',
     ''toLocaleString'', ''toString'', ''valueOf'', ''__proto__'',
     ''__defineGetter__'', ''__defineSetter__'', ''__lookupGetter__'', ''__lookupSetter__'']"

definition NOTE_FREQS_get :: "string \<Rightarrow> jsval option" where
  "NOTE_FREQS_get note =
     (case map_of NOTE_FREQS note of
        Some f \<Rightarrow> Some (Num f)
      | None \<Rightarrow> if note \<in> set Object_prototype_names then Some Obj else None)"

fun truthy :: "jsval \<Rightarrow> bool" where
  "truthy (Num f) = (f \<noteq> 0)"
| "truthy Obj = True"

definition DEFAULT_SEQ :: "string list" where
  "DEFAULT_SEQ =
    [''E3'', ''E3'', ''G3'', ''A3'',
     ''B3'', ''B3'', ''A3'', ''G3'',
     ''E3'', ''E3'', ''G3'', ''A3'',
     ''B3'', ''A3'', ''G3'', ''E3'']"

definition clamp :: "real \<Rightarrow> real \<Rightarrow> real \<Rightarrow> real" where
  "clamp val mn mx = max mn (min mx val)"

text \<open>\<^verbatim>\<open>steps[idx]\<close>: \<open>None\<close> is \<^verbatim>\<open>undefined\<close>.\<close>

fun js_index :: "'a list \<Rightarrow> jsidx \<Rightarrow> 'a option" where
  "js_index xs NaN = None"
| "js_index xs (Ix i) = (if 0 \<le> i \<and> i < int (length xs) then Some (xs ! nat i) else None)"

text \<open>\<^verbatim>\<open>(idx + 1) % steps.length\<close>: the remainder takes the sign of the dividend, and is
  \<^verbatim>\<open>NaN\<close> for length 0.\<close>

fun next_index :: "jsidx \<Rightarrow> nat \<Rightarrow> jsidx" where
  "next_index NaN len = NaN"
| "next_index (Ix i) len =
     (if len = 0 then NaN else Ix (sgn (i + 1) * (\<bar>i + 1\<bar> mod int len)))"

subsection \<open>The calls on audio nodes\<close>

definition fresh_node :: "node_kind \<Rightarrow> audio_node" where
  "fresh_node k =
     \<lparr>kind = k, osc_type = Sine, filter_type = ''lowpass'',
      param_value = (case k of OscillatorNode \<Rightarrow> 440 | GainNode \<Rightarrow> 1
                      | BiquadFilterNode \<Rightarrow> 350 | _ \<Rightarrow> 0),
      events = [], outputs = [], start_time = None, stop_time = None\<rparr>"

definition create_node :: "node_kind \<Rightarrow> state \<Rightarrow> nat \<times> state" where
  "create_node k st =
     (next_node st,
      st\<lparr>nodes := (nodes st)(next_node st := fresh_node k),
         next_node := Suc (next_node st)\<rparr>)"

definition update_node :: "nat \<Rightarrow> (audio_node \<Rightarrow> audio_node) \<Rightarrow> state \<Rightarrow> state" where
  "update_node n f st = st\<lparr>nodes := (nodes st)(n := f (nodes st n))\<rparr>"

text \<open>\<^verbatim>\<open>a.connect(b)\<close>; connecting twice to the same target adds nothing.\<close>

definition connect :: "nat \<Rightarrow> target \<Rightarrow> state \<Rightarrow> state" where
  "connect n t st =
     update_node n (\<lambda>nd. nd\<lparr>outputs := (if t \<in> set (outputs nd) then outputs nd
                                         else outputs nd @ [t])\<rparr>) st"

definition disconnect :: "nat \<Rightarrow> state \<Rightarrow> state" where
  "disconnect n st = update_node n (\<lambda>nd. nd\<lparr>outputs := []\<rparr>) st"

text \<open>An assignment to the \<^verbatim>\<open>value\<close> attribute of a parameter. The API stores the value
  and performs \<^verbatim>\<open>setValueAtTime(value, currentTime)\<close> on the parameter, so the write
  leaves a point on the timeline at the current instant.\<close>

definition set_value :: "nat \<Rightarrow> real \<Rightarrow> state \<Rightarrow> state" where
  "set_value n v st =
     update_node n (\<lambda>nd. nd\<lparr>param_value := v,
                               events := events nd @ [SetValueAtTime v (currentTime st)]\<rparr>) st"

text \<open>\<^verbatim>\<open>cancelScheduledValues(t)\<close> removes the points at or after \<open>t\<close>.\<close>

definition cancelScheduledValues :: "nat \<Rightarrow> real \<Rightarrow> state \<Rightarrow> state" where
  "cancelScheduledValues n t st =
     update_node n (\<lambda>nd. nd\<lparr>events := filter (\<lambda>e. event_time e < t) (events nd)\<rparr>) st"

definition setValueAtTime :: "nat \<Rightarrow> real \<Rightarrow> real \<Rightarrow> state \<Rightarrow> state" where
  "setValueAtTime n v t st =
     update_node n (\<lambda>nd. nd\<lparr>events := events nd @ [SetValueAtTime v t]\<rparr>) st"

definition linearRampToValueAtTime :: "nat \<Rightarrow> real \<Rightarrow> real \<Rightarrow> state \<Rightarrow> state" where
  "linearRampToValueAtTime n v t st =
     update_node n (\<lambda>nd. nd\<lparr>events := events nd @ [LinearRampToValueAtTime v t]\<rparr>) st"

definition osc_start :: "nat \<Rightarrow> real \<Rightarrow> state \<Rightarrow> state" where
  "osc_start n t st = update_node n (\<lambda>nd. nd\<lparr>start_time := Some t\<rparr>) st"

text \<open>\<^verbatim>\<open>osc.stop(when)\<close>; the last call decides, and \<^verbatim>\<open>osc.stop()\<close> is \<^verbatim>\<open>stop(0)\<close>.\<close>

definition osc_stop :: "nat \<Rightarrow> real \<Rightarrow> state \<Rightarrow> state" where
  "osc_stop n t st = update_node n (\<lambda>nd. nd\<lparr>stop_time := Some t\<rparr>) st"

section \<open>The component\<close>

subsection \<open>Effects (lines 116-160)\<close>

text \<open>The mount effect (lines 116-139), run with the first render. The convolver is
  connected to the wet gain, which exists by then.\<close>

definition mount_effect :: "render \<Rightarrow> state \<Rightarrow> state" where
  "mount_effect env st =
     (let st1 = (if \<not> audioCtxRef st then st\<lparr>audioCtxRef := True\<rparr> else st);
          st2 = (case dryGainRef st1 of
                   Some _ \<Rightarrow> st1
                 | None \<Rightarrow>
                     (let (n, s1) = create_node GainNode st1
                      in (connect n Destination (set_value n (1 - reverb env) s1))
                           \<lparr>dryGainRef := Some n\<rparr>));
          st3 = (case wetGainRef st2 of
                   Some _ \<Rightarrow> st2
                 | None \<Rightarrow>
                     (let (n, s1) = create_node GainNode st2
                      in (connect n Destination (set_value n (reverb env) s1))
                           \<lparr>wetGainRef := Some n\<rparr>));
          st4 = (case convolverRef st3 of
                   Some _ \<Rightarrow> st3
                 | None \<Rightarrow>
                     (let (n, s1) = create_node ConvolverNode st3
                      in (case wetGainRef s1 of
                            Some w \<Rightarrow> connect n (ToNode w) s1
                          | None \<Rightarrow> s1)\<lparr>convolverRef := Some n\<rparr>))
      in st4)"

text \<open>The dry/wet effect (lines 142-145).\<close>

definition reverb_effect :: "render \<Rightarrow> state \<Rightarrow> state" where
  "reverb_effect env st =
     (let st1 = (case dryGainRef st of
                   Some dg \<Rightarrow> set_value dg (1 - reverb env) st
                 | None \<Rightarrow> st);
          st2 = (case wetGainRef st1 of
                   Some wg \<Rightarrow> set_value wg (reverb env) st1
                 | None \<Rightarrow> st1)
      in st2)"

text \<open>The effects on the live nodes (lines 152-160).\<close>

definition waveform_effect :: "render \<Rightarrow> state \<Rightarrow> state" where
  "waveform_effect env st =
     (case lastOscRef st of
        Some n \<Rightarrow> update_node n (\<lambda>nd. nd\<lparr>osc_type := waveform env\<rparr>) st
      | None \<Rightarrow> st)"

definition filter_effect :: "render \<Rightarrow> state \<Rightarrow> state" where
  "filter_effect env st =
     (case lastFilterRef st of
        Some n \<Rightarrow> set_value n (filter_hz env) st
      | None \<Rightarrow> st)"

definition volume_effect :: "render \<Rightarrow> state \<Rightarrow> state" where
  "volume_effect env st =
     (case lastGainRef st of
        Some n \<Rightarrow> set_value n (volume env) st
      | None \<Rightarrow> st)"

subsection \<open>The tick (lines 195-257)\<close>

text \<open>``Stop previous note'', lines 199-211; \<^verbatim>\<open>stopSequence\<close> repeats the same three
  statements at lines 180-192.\<close>

definition stop_previous :: "state \<Rightarrow> state" where
  "stop_previous st =
     (let st1 = (case lastOscRef st of
                   Some n \<Rightarrow> (disconnect n (osc_stop n 0 st))\<lparr>lastOscRef := None\<rparr>
                 | None \<Rightarrow> st);
          st2 = (case lastGainRef st1 of
                   Some n \<Rightarrow> (disconnect n st1)\<lparr>lastGainRef := None\<rparr>
                 | None \<Rightarrow> st1);
          st3 = (case lastFilterRef st2 of
                   Some n \<Rightarrow> (disconnect n st2)\<lparr>lastFilterRef := None\<rparr>
                 | None \<Rightarrow> st2)
      in st3)"

text \<open>The body of the \<^verbatim>\<open>if\<close> of lines 216-247, given the value \<open>v\<close> read from
  \<^verbatim>\<open>NOTE_FREQS[note]\<close>. It raises where the source does: on a null audio context, on a
  frequency that is not a number, and on connecting to a null node.\<close>

definition build_voice :: "render \<Rightarrow> jsval \<Rightarrow> state \<Rightarrow> outcome \<times> state" where
  "build_voice env v st =
     (if \<not> audioCtxRef st then (Threw TypeError, st)
      else
        let (osc, st1) = create_node OscillatorNode st;
            (gain, st2) = create_node GainNode st1;
            (filterNode, st3) = create_node BiquadFilterNode st2;
            st4 = update_node osc (\<lambda>nd. nd\<lparr>osc_type := waveform env\<rparr>) st3
        in (case v of
              Obj \<Rightarrow> (Threw TypeError, st4)
            | Num f \<Rightarrow>
               (let st5 = set_value osc f st4;
                    st6 = update_node filterNode (\<lambda>nd. nd\<lparr>filter_type := ''lowpass''\<rparr>) st5;
                    st7 = set_value filterNode (filter_hz env) st6;
                    st8 = set_value gain (volume env) st7;
                    st9 = connect osc (ToNode filterNode) st8;
                    st10 = connect filterNode (ToNode gain) st9
                in (case dryGainRef st10 of
                      None \<Rightarrow> (Threw TypeError, st10)
                    | Some dry \<Rightarrow>
                       (let st11 = connect gain (ToNode dry) st10
                        in (case convolverRef st11 of
                              None \<Rightarrow> (Threw TypeError, st11)
                            | Some conv \<Rightarrow>
                               (let st12 = connect gain (ToNode conv) st11;
                                    now = currentTime st12;
                                    st13 = cancelScheduledValues gain now st12;
                                    st14 = setValueAtTime gain 0 now st13;
                                    st15 = linearRampToValueAtTime gain (volume env)
                                             (now + adsr_a (adsr env)) st14;
                                    st16 = linearRampToValueAtTime gain
                                             (volume env * adsr_s (adsr env))
                                             (now + adsr_a (adsr env) + adsr_d (adsr env)) st15;
                                    st17 = linearRampToValueAtTime gain 0
                                             (now + adsr_a (adsr env) + adsr_d (adsr env)
                                                + adsr_r (adsr env)) st16;
                                    st18 = osc_start osc now st17;
                                    st19 = osc_stop osc
                                             (now + adsr_a (adsr env) + adsr_d (adsr env)
                                                + adsr_r (adsr env)) st18
                                in (Returned,
                                    st19\<lparr>lastOscRef := Some osc, lastGainRef := Some gain,
                                         lastFilterRef := Some filterNode\<rparr>))))))))"

text \<open>``Prepare next note'', lines 214-248: the guard \<^verbatim>\<open>note && NOTE_FREQS[note]\<close>.\<close>

definition prepare_note :: "render \<Rightarrow> jsidx \<Rightarrow> state \<Rightarrow> outcome \<times> state" where
  "prepare_note env idx st =
     (case js_index (steps env) idx of
        None \<Rightarrow> (Returned, st)
      | Some note \<Rightarrow>
          if note = [] then (Returned, st)
          else (case NOTE_FREQS_get note of
                  None \<Rightarrow> (Returned, st)
                | Some v \<Rightarrow> if truthy v then build_voice env v st else (Returned, st)))"

text \<open>``Schedule next step'', lines 250-256. The division is JavaScript's; for
  \<^verbatim>\<open>bpm = 0\<close> it differs from HOL's, and the theorems on the delay exclude it.\<close>

definition schedule_next :: "render \<Rightarrow> jsidx \<Rightarrow> state \<Rightarrow> state" where
  "schedule_next env idx st =
     (let stepMs = (60 * 1000) / bpm env / 4
      in st\<lparr>timers := (timers st)(next_timer st \<mapsto>
                          \<lparr>delay = stepMs, t_env = env, t_idx = idx\<rparr>),
            stepTimerRef := Some (next_timer st),
            next_timer := Suc (next_timer st)\<rparr>)"

definition nextStep :: "render \<Rightarrow> jsidx \<Rightarrow> state \<Rightarrow> outcome \<times> state" where
  "nextStep env idx st =
     (case prepare_note env idx (stop_previous (st\<lparr>currentStep := idx\<rparr>)) of
        (Threw e, st') \<Rightarrow> (Threw e, st')
      | (Returned, st') \<Rightarrow> (Returned, schedule_next env idx st'))"

text \<open>The callback given to \<^verbatim>\<open>setTimeout\<close> (lines 252-256), with the render and the
  \<^verbatim>\<open>idx\<close> of the \<^verbatim>\<open>nextStep\<close> call that created it.\<close>

definition timer_callback :: "render \<Rightarrow> jsidx \<Rightarrow> state \<Rightarrow> outcome \<times> state" where
  "timer_callback env idx st =
     (if playingRef st then nextStep env (next_index idx (length (steps env))) st
      else (Returned, st))"

text \<open>The timer \<open>t\<close> fires: it is no longer pending, and its callback runs.\<close>

definition fire_timer :: "nat \<Rightarrow> state \<Rightarrow> state" where
  "fire_timer t st =
     (case timers st t of
        None \<Rightarrow> st
      | Some tm \<Rightarrow>
          snd (timer_callback (t_env tm) (t_idx tm) (st\<lparr>timers := (timers st)(t := None)\<rparr>)))"

subsection \<open>Transport (lines 162-193)\<close>

definition playSequence :: "render \<Rightarrow> state \<Rightarrow> outcome \<times> state" where
  "playSequence env st =
     (if playingRef st then (Returned, st)
      else
        let st1 = st\<lparr>playing := True, playingRef := True, currentStep := Ix (- 1)\<rparr>;
            st2 = (if \<not> audioCtxRef st1 then st1\<lparr>audioCtxRef := True\<rparr> else st1)
        in nextStep env (Ix 0) st2)"

text \<open>Timer identifiers are positive, so a stored one is truthy.\<close>

definition stopSequence :: "state \<Rightarrow> state" where
  "stopSequence st =
     (let st1 = st\<lparr>playing := False, playingRef := False, currentStep := Ix (- 1)\<rparr>;
          st2 = (case stepTimerRef st1 of
                   Some t \<Rightarrow> if t \<noteq> 0 then st1\<lparr>timers := (timers st1)(t := None)\<rparr> else st1
                 | None \<Rightarrow> st1)
      in stop_previous st2)"

text \<open>The button (lines 394-399) calls the one or the other, by the \<^verbatim>\<open>playing\<close> of the
  latest render.\<close>

definition click_button :: "state \<Rightarrow> state" where
  "click_button st =
     (if playing st then stopSequence st else snd (playSequence (ui st) st))"

subsection \<open>Edits (lines 259-277 and the knobs)\<close>

datatype adsr_field = FieldA | FieldD | FieldS | FieldR

fun set_field :: "adsr_field \<Rightarrow> real \<Rightarrow> adsr_params \<Rightarrow> adsr_params" where
  "set_field FieldA v p = p\<lparr>adsr_a := v\<rparr>"
| "set_field FieldD v p = p\<lparr>adsr_d := v\<rparr>"
| "set_field FieldS v p = p\<lparr>adsr_s := v\<rparr>"
| "set_field FieldR v p = p\<lparr>adsr_r := v\<rparr>"



text \<open>\<^verbatim>\<open>handleAdsrChange(field, val)\<close> of the render \<open>env\<close>: the new object is built from
  that render's \<^verbatim>\<open>adsr\<close>, and so is the schedule.\<close>

definition handleAdsrChange :: "render \<Rightarrow> adsr_field \<Rightarrow> real \<Rightarrow> state \<Rightarrow> state" where
  "handleAdsrChange env field val st =
     (let st1 = st\<lparr>ui := (ui st)\<lparr>adsr := set_field field (clamp val 0 2) (adsr env)\<rparr>\<rparr>
      in case lastGainRef st1 of
           None \<Rightarrow> st1
         | Some g \<Rightarrow>
             if \<not> audioCtxRef st1 then st1
             else
               let now = currentTime st1;
                   st2 = cancelScheduledValues g now st1;
                   st3 = setValueAtTime g 0 now st2;
                   st4 = linearRampToValueAtTime g (volume env) (now + adsr_a (adsr env)) st3;
                   st5 = linearRampToValueAtTime g (volume env * adsr_s (adsr env))
                           (now + adsr_a (adsr env) + adsr_d (adsr env)) st4;
                   st6 = linearRampToValueAtTime g 0
                           (now + adsr_a (adsr env) + adsr_d (adsr env) + adsr_r (adsr env)) st5
               in st6)"

text \<open>\<^verbatim>\<open>handleStepChange(idx, val)\<close>; the grid calls it with the index of an existing slot
  only, where \<^verbatim>\<open>newSteps[idx] = val\<close> is a list update.\<close>

definition handleStepChange :: "render \<Rightarrow> nat \<Rightarrow> string \<Rightarrow> state \<Rightarrow> state" where
  "handleStepChange env idx val st = st\<lparr>ui := (ui st)\<lparr>steps := (steps env)[idx := val]\<rparr>\<rparr>"

text \<open>The values a step select can deliver are those of its options (lines 387-390): the
  empty string and the names of \<^verbatim>\<open>NOTE_LIST\<close>.\<close>

definition step_options :: "string list" where
  "step_options = [] # NOTE_LIST"

text \<open>The setters of the knobs and of the select, each followed by the effect that depends
  on the value. React skips the render, and with it the effect, when the value is the
  one already stored.\<close>

definition setWaveform :: "oscillator_type \<Rightarrow> state \<Rightarrow> state" where
  "setWaveform w st =
     (if w = waveform (ui st) then st
      else let st1 = st\<lparr>ui := (ui st)\<lparr>waveform := w\<rparr>\<rparr> in waveform_effect (ui st1) st1)"

definition setFilter :: "real \<Rightarrow> state \<Rightarrow> state" where
  "setFilter v st =
     (if v = filter_hz (ui st) then st
      else let st1 = st\<lparr>ui := (ui st)\<lparr>filter_hz := v\<rparr>\<rparr> in filter_effect (ui st1) st1)"

definition setVolume :: "real \<Rightarrow> state \<Rightarrow> state" where
  "setVolume v st =
     (if v = volume (ui st) then st
      else let st1 = st\<lparr>ui := (ui st)\<lparr>volume := v\<rparr>\<rparr> in volume_effect (ui st1) st1)"

definition setReverb :: "real \<Rightarrow> state \<Rightarrow> state" where
  "setReverb v st =
     (if v = reverb (ui st) then st
      else let st1 = st\<lparr>ui := (ui st)\<lparr>reverb := v\<rparr>\<rparr> in reverb_effect (ui st1) st1)"

text \<open>The BPM knob (line 314).\<close>

definition setBpm :: "real \<Rightarrow> state \<Rightarrow> state" where
  "setBpm v st = st\<lparr>ui := (ui st)\<lparr>bpm := clamp v 40 300\<rparr>\<rparr>"

subsection \<open>The component's life\<close>

definition initial :: state where
  "initial =
     \<lparr>ui = \<lparr>waveform = Sine, steps = DEFAULT_SEQ, bpm = 120, volume = 0.5,
            filter_hz = 20000,
            adsr = \<lparr>adsr_a = 0.01, adsr_d = 0.1, adsr_s = 0.7, adsr_r = 0.2\<rparr>,
            reverb = 0.01\<rparr>,
      playing = False, currentStep = Ix (- 1), playingRef = False, audioCtxRef = False,
      dryGainRef = None, wetGainRef = None, convolverRef = None, stepTimerRef = None,
      lastGainRef = None, lastOscRef = None, lastFilterRef = None,
      currentTime = 0, nodes = (\<lambda>_. fresh_node Unallocated), next_node = 0,
      timers = Map.empty, next_timer = 1\<rparr>"

text \<open>After the first render all effects run once, in the order of the source.\<close>

definition mounted :: state where
  "mounted =
     (let env = ui initial
      in volume_effect env (filter_effect env (waveform_effect env
           (reverb_effect env (mount_effect env initial)))))"

text \<open>What can happen to the mounted component: the audio clock advances, the button is
  clicked, a pending timer fires, a control is edited (each handler is the one of the
  latest render), the component is unmounted (the cleanup of lines 279-282). The relation
  lets an edit pass any value; which values a step select and an envelope knob deliver is
  stated by \<open>step_options\<close> and \<open>knob_max\<close>.\<close>

inductive reachable :: "state \<Rightarrow> bool" where
  init: "reachable mounted"
| clock: "reachable st \<Longrightarrow> 0 \<le> dt \<Longrightarrow> reachable (st\<lparr>currentTime := currentTime st + dt\<rparr>)"
| button: "reachable st \<Longrightarrow> reachable (click_button st)"
| fire: "reachable st \<Longrightarrow> reachable (fire_timer t st)"
| edit_waveform: "reachable st \<Longrightarrow> reachable (setWaveform w st)"
| edit_filter: "reachable st \<Longrightarrow> reachable (setFilter v st)"
| edit_volume: "reachable st \<Longrightarrow> reachable (setVolume v st)"
| edit_reverb: "reachable st \<Longrightarrow> reachable (setReverb v st)"
| edit_bpm: "reachable st \<Longrightarrow> reachable (setBpm v st)"
| edit_step: "reachable st \<Longrightarrow> i < length (steps (ui st)) \<Longrightarrow>
              reachable (handleStepChange (ui st) i val st)"
| edit_adsr: "reachable st \<Longrightarrow> reachable (handleAdsrChange (ui st) field val st)"
| cleanup: "reachable st \<Longrightarrow> reachable (stopSequence st)"

section \<open>Invariants of the running component\<close>

text \<open>A voice is identified by its oscillator. It is live when the oscillator has been
  started, is still connected, and has not reached its stop time.\<close>

definition live_voice :: "state \<Rightarrow> nat \<Rightarrow> bool" where
  "live_voice st n =
     (kind (nodes st n) = OscillatorNode \<and> start_time (nodes st n) \<noteq> None
      \<and> outputs (nodes st n) \<noteq> []
      \<and> (case stop_time (nodes st n) of None \<Rightarrow> True | Some t \<Rightarrow> currentTime st < t))"

definition started_connected :: "state \<Rightarrow> nat \<Rightarrow> bool" where
  "started_connected st n =
     (kind (nodes st n) = OscillatorNode \<and> start_time (nodes st n) \<noteq> None
      \<and> outputs (nodes st n) \<noteq> [])"

text \<open>Every oscillator that was started and is still connected is the one the voice ref
  names.\<close>

definition mono_inv :: "state \<Rightarrow> bool" where
  "mono_inv st = (\<forall>n. started_connected st n \<longrightarrow> lastOscRef st = Some n)"

text \<open>The persistent graph exists: the mount effect created the dry gain, the wet gain and
  the convolver as nodes 0, 1 and 2, and nothing assigns these refs again.\<close>

definition persist_inv :: "state \<Rightarrow> bool" where
  "persist_inv st =
     (audioCtxRef st \<and> dryGainRef st = Some 0 \<and> wetGainRef st = Some 1
      \<and> convolverRef st = Some 2 \<and> 3 \<le> next_node st)"

text \<open>The three voice refs are empty together, or name three consecutive nodes created
  after the persistent ones, the first of which has been started.\<close>

definition voice_inv :: "state \<Rightarrow> bool" where
  "voice_inv st =
     ((lastOscRef st = None \<longrightarrow> lastGainRef st = None \<and> lastFilterRef st = None)
      \<and> (\<forall>n. lastOscRef st = Some n \<longrightarrow>
             3 \<le> n \<and> n + 2 < next_node st \<and> lastGainRef st = Some (n + 1)
             \<and> lastFilterRef st = Some (n + 2) \<and> start_time (nodes st n) \<noteq> None))"

text \<open>The state \<^verbatim>\<open>playing\<close> and the ref agree; a timer is pending only during playback
  and is the one the timer ref names; a stopped component shows step -1 and has no
  voice.\<close>

definition transport_inv :: "state \<Rightarrow> bool" where
  "transport_inv st =
     (playing st = playingRef st \<and> next_timer st \<noteq> 0
      \<and> (\<forall>t. timers st t \<noteq> None \<longrightarrow> playingRef st \<and> stepTimerRef st = Some t \<and> t \<noteq> 0)
      \<and> (\<not> playingRef st \<longrightarrow> currentStep st = Ix (- 1) \<and> lastOscRef st = None
            \<and> lastGainRef st = None \<and> lastFilterRef st = None))"

definition wf :: "state \<Rightarrow> bool" where
  "wf st = (persist_inv st \<and> voice_inv st \<and> transport_inv st \<and> mono_inv st)"

text \<open>The envelope times of a render are not negative and its tempo lies in
  \<open>[40, 300]\<close>; this holds for the latest render and for the render of every pending
  timer, and the audio clock is not negative.\<close>

definition render_ok :: "render \<Rightarrow> bool" where
  "render_ok env =
     (0 \<le> adsr_a (adsr env) \<and> 0 \<le> adsr_d (adsr env) \<and> 0 \<le> adsr_r (adsr env)
      \<and> 40 \<le> bpm env \<and> bpm env \<le> 300)"

definition times_inv :: "state \<Rightarrow> bool" where
  "times_inv st =
     (0 \<le> currentTime st \<and> render_ok (ui st)
      \<and> (\<forall>t tm. timers st t = Some tm \<longrightarrow> render_ok (t_env tm)))"

text \<open>A sequence the component can hold: the default sequence, edited through the step
  selects, has in every slot a value the selects offer. This holds for the latest render and
  for the render of every pending timer.\<close>

definition selectable :: "render \<Rightarrow> bool" where
  "selectable env = list_all (\<lambda>s. s \<in> set step_options) (steps env)"

definition slots_inv :: "state \<Rightarrow> bool" where
  "slots_inv st =
     (selectable (ui st) \<and> (\<forall>t tm. timers st t = Some tm \<longrightarrow> selectable (t_env tm)))"

section \<open>Properties of the operations\<close>

subsection \<open>Calls on nodes\<close>

lemmas api_defs = create_node_def update_node_def connect_def disconnect_def set_value_def
  cancelScheduledValues_def setValueAtTime_def linearRampToValueAtTime_def osc_start_def
  osc_stop_def

lemmas effect_defs = mount_effect_def reverb_effect_def waveform_effect_def filter_effect_def
  volume_effect_def

lemmas api_to_update = connect_def disconnect_def set_value_def cancelScheduledValues_def
  setValueAtTime_def linearRampToValueAtTime_def osc_start_def osc_stop_def

lemma update_node_fields:
  "ui (update_node n f st) = ui st" "playing (update_node n f st) = playing st"
  "currentStep (update_node n f st) = currentStep st"
  "playingRef (update_node n f st) = playingRef st"
  "audioCtxRef (update_node n f st) = audioCtxRef st"
  "dryGainRef (update_node n f st) = dryGainRef st"
  "wetGainRef (update_node n f st) = wetGainRef st"
  "convolverRef (update_node n f st) = convolverRef st"
  "stepTimerRef (update_node n f st) = stepTimerRef st"
  "lastGainRef (update_node n f st) = lastGainRef st"
  "lastOscRef (update_node n f st) = lastOscRef st"
  "lastFilterRef (update_node n f st) = lastFilterRef st"
  "currentTime (update_node n f st) = currentTime st"
  "next_node (update_node n f st) = next_node st"
  "timers (update_node n f st) = timers st"
  "next_timer (update_node n f st) = next_timer st"
  by (simp_all add: update_node_def)

lemma create_node_fields:
  "ui (snd (create_node k st)) = ui st" "playing (snd (create_node k st)) = playing st"
  "currentStep (snd (create_node k st)) = currentStep st"
  "playingRef (snd (create_node k st)) = playingRef st"
  "audioCtxRef (snd (create_node k st)) = audioCtxRef st"
  "dryGainRef (snd (create_node k st)) = dryGainRef st"
  "wetGainRef (snd (create_node k st)) = wetGainRef st"
  "convolverRef (snd (create_node k st)) = convolverRef st"
  "stepTimerRef (snd (create_node k st)) = stepTimerRef st"
  "lastGainRef (snd (create_node k st)) = lastGainRef st"
  "lastOscRef (snd (create_node k st)) = lastOscRef st"
  "lastFilterRef (snd (create_node k st)) = lastFilterRef st"
  "currentTime (snd (create_node k st)) = currentTime st"
  "timers (snd (create_node k st)) = timers st"
  "next_timer (snd (create_node k st)) = next_timer st"
  by (simp_all add: create_node_def)

subsection \<open>The teardown\<close>

lemma stop_previous_idle:
  assumes "lastOscRef st = None" "lastGainRef st = None" "lastFilterRef st = None"
  shows "stop_previous st = st"
  using assms by (simp add: stop_previous_def)

lemma stop_previous_voice:
  assumes "lastOscRef st = Some n" "lastGainRef st = Some (n + 1)"
    "lastFilterRef st = Some (n + 2)"
  shows "stop_previous st =
     st\<lparr>nodes := (nodes st)
          (n := (nodes st n)\<lparr>stop_time := Some 0, outputs := []\<rparr>,
           n + 1 := (nodes st (n + 1))\<lparr>outputs := []\<rparr>,
           n + 2 := (nodes st (n + 2))\<lparr>outputs := []\<rparr>),
        lastOscRef := None, lastGainRef := None, lastFilterRef := None\<rparr>"
  using assms unfolding stop_previous_def Let_def
  by (simp add: api_defs fun_eq_iff)

lemma stop_previous_fields:
  "currentStep (stop_previous st) = currentStep st"
  "next_node (stop_previous st) = next_node st"
  "currentTime (stop_previous st) = currentTime st"
  "timers (stop_previous st) = timers st"
  "next_timer (stop_previous st) = next_timer st"
  "stepTimerRef (stop_previous st) = stepTimerRef st"
  "playing (stop_previous st) = playing st"
  "playingRef (stop_previous st) = playingRef st"
  "ui (stop_previous st) = ui st"
  "lastOscRef (stop_previous st) = None"
  "lastGainRef (stop_previous st) = None"
  "lastFilterRef (stop_previous st) = None"
  by (cases "lastOscRef st"; cases "lastGainRef st"; cases "lastFilterRef st";
      simp add: stop_previous_def api_defs)+

lemma stop_previous_tears_down:
  "lastOscRef st = Some n \<Longrightarrow>
     outputs (nodes (stop_previous st) n) = [] \<and> stop_time (nodes (stop_previous st) n) = Some 0"
  "lastGainRef st = Some n \<Longrightarrow> outputs (nodes (stop_previous st) n) = []"
  "lastFilterRef st = Some n \<Longrightarrow> outputs (nodes (stop_previous st) n) = []"
  by (cases "lastOscRef st"; cases "lastGainRef st"; cases "lastFilterRef st";
      simp add: stop_previous_def api_defs)+

lemma stop_previous_persist:
  "audioCtxRef (stop_previous st) = audioCtxRef st"
  "dryGainRef (stop_previous st) = dryGainRef st"
  "wetGainRef (stop_previous st) = wetGainRef st"
  "convolverRef (stop_previous st) = convolverRef st"
  by (cases "lastOscRef st"; cases "lastGainRef st"; cases "lastFilterRef st";
      simp add: stop_previous_def api_defs)+

lemma stop_previous_nodes_cong:
  assumes "nodes s = nodes s'" "lastOscRef s = lastOscRef s'"
    "lastGainRef s = lastGainRef s'" "lastFilterRef s = lastFilterRef s'"
  shows "nodes (stop_previous s) = nodes (stop_previous s')"
  using assms
  by (cases "lastOscRef s'"; cases "lastGainRef s'"; cases "lastFilterRef s'")
     (simp_all add: stop_previous_def api_defs)

subsection \<open>Building a voice\<close>

text \<open>The voice a tick builds when the persistent graph exists, and what is left of an attempt
  that raises on the frequency.\<close>

lemma build_voice_Num:
  assumes "audioCtxRef st" "dryGainRef st = Some 0" "convolverRef st = Some 2"
  shows "build_voice env (Num f) st =
     (Returned,
      st\<lparr>nodes := (nodes st)
           (next_node st :=
              \<lparr>kind = OscillatorNode, osc_type = waveform env, filter_type = ''lowpass'',
               param_value = f, events = [SetValueAtTime f (currentTime st)],
               outputs = [ToNode (next_node st + 2)],
               start_time = Some (currentTime st),
               stop_time = Some (currentTime st + adsr_a (adsr env) + adsr_d (adsr env)
                                   + adsr_r (adsr env))\<rparr>,
            next_node st + 1 :=
              \<lparr>kind = GainNode, osc_type = Sine, filter_type = ''lowpass'',
               param_value = volume env,
               events =
                 [SetValueAtTime 0 (currentTime st),
                  LinearRampToValueAtTime (volume env) (currentTime st + adsr_a (adsr env)),
                  LinearRampToValueAtTime (volume env * adsr_s (adsr env))
                    (currentTime st + adsr_a (adsr env) + adsr_d (adsr env)),
                  LinearRampToValueAtTime 0
                    (currentTime st + adsr_a (adsr env) + adsr_d (adsr env)
                       + adsr_r (adsr env))],
               outputs = [ToNode 0, ToNode 2],
               start_time = None, stop_time = None\<rparr>,
            next_node st + 2 :=
              \<lparr>kind = BiquadFilterNode, osc_type = Sine, filter_type = ''lowpass'',
               param_value = filter_hz env,
               events = [SetValueAtTime (filter_hz env) (currentTime st)],
               outputs = [ToNode (next_node st + 1)],
               start_time = None, stop_time = None\<rparr>),
         next_node := next_node st + 3,
         lastOscRef := Some (next_node st),
         lastGainRef := Some (next_node st + 1),
         lastFilterRef := Some (next_node st + 2)\<rparr>)"
  using assms
  unfolding build_voice_def Let_def split_def
  by (simp add: api_defs fresh_node_def fun_eq_iff)

lemma build_voice_Obj:
  assumes "audioCtxRef st"
  shows "build_voice env Obj st =
     (Threw TypeError,
      st\<lparr>nodes := (nodes st)
           (next_node st := (fresh_node OscillatorNode)\<lparr>osc_type := waveform env\<rparr>,
            next_node st + 1 := fresh_node GainNode,
            next_node st + 2 := fresh_node BiquadFilterNode),
         next_node := next_node st + 3\<rparr>)"
  using assms
  unfolding build_voice_def Let_def split_def
  by (simp add: api_defs fun_eq_iff)

text \<open>Building a voice changes the node store and the three voice refs, nothing else.\<close>

lemma build_voice_frame:
  "ui (snd (build_voice env v st)) = ui st"
  "playing (snd (build_voice env v st)) = playing st"
  "currentStep (snd (build_voice env v st)) = currentStep st"
  "playingRef (snd (build_voice env v st)) = playingRef st"
  "stepTimerRef (snd (build_voice env v st)) = stepTimerRef st"
  "currentTime (snd (build_voice env v st)) = currentTime st"
  "timers (snd (build_voice env v st)) = timers st"
  "next_timer (snd (build_voice env v st)) = next_timer st"
  unfolding build_voice_def Let_def split_def
  by (simp_all add: api_to_update update_node_fields create_node_fields
      split: jsval.splits option.splits)

subsection \<open>The guard of the tick\<close>

lemma NOTE_FREQS_get_Num:
  assumes "NOTE_FREQS_get note = Some (Num f)"
  shows "note \<noteq> [] \<and> f \<noteq> 0"
proof -
  from assms have "map_of NOTE_FREQS note = Some f"
    by (simp add: NOTE_FREQS_get_def split: option.splits if_splits)
  then have "(note, f) \<in> set NOTE_FREQS" by (rule map_of_SomeD)
  then show ?thesis by (auto simp add: NOTE_FREQS_def)
qed

lemma NOTE_FREQS_get_Obj:
  assumes "NOTE_FREQS_get note = Some Obj"
  shows "note \<noteq> []"
  using assms
  by (auto simp add: NOTE_FREQS_get_def Object_prototype_names_def split: option.splits if_splits)

lemma prepare_note_rest:
  assumes "js_index (steps env) idx = None \<or> js_index (steps env) idx = Some []
           \<or> (\<exists>note. js_index (steps env) idx = Some note \<and> NOTE_FREQS_get note = None)"
  shows "prepare_note env idx st = (Returned, st)"
  using assms by (auto simp add: prepare_note_def)

lemma prepare_note_found:
  assumes "js_index (steps env) idx = Some nt" "NOTE_FREQS_get nt = Some v"
  shows "prepare_note env idx st = build_voice env v st"
proof (cases v)
  case (Num f)
  with assms NOTE_FREQS_get_Num[of nt f] show ?thesis by (simp add: prepare_note_def)
next
  case Obj
  with assms NOTE_FREQS_get_Obj[of nt] show ?thesis by (simp add: prepare_note_def)
qed

lemma slot_cases:
  obtains (rest) "js_index (steps env) idx = None \<or> js_index (steps env) idx = Some []
           \<or> (\<exists>note. js_index (steps env) idx = Some note \<and> NOTE_FREQS_get note = None)"
  | (num) nt f where "js_index (steps env) idx = Some nt" "NOTE_FREQS_get nt = Some (Num f)"
  | (obj) nt where "js_index (steps env) idx = Some nt" "NOTE_FREQS_get nt = Some Obj"
proof (cases "js_index (steps env) idx")
  case None
  then show ?thesis using rest by simp
next
  case (Some nt)
  show ?thesis
  proof (cases "NOTE_FREQS_get nt")
    case None
    with Some show ?thesis using rest by simp
  next
    case (Some v)
    with \<open>js_index (steps env) idx = Some nt\<close> show ?thesis
      using num obj by (cases v) auto
  qed
qed

lemma prepare_note_frame:
  "ui (snd (prepare_note env idx st)) = ui st"
  "playing (snd (prepare_note env idx st)) = playing st"
  "currentStep (snd (prepare_note env idx st)) = currentStep st"
  "playingRef (snd (prepare_note env idx st)) = playingRef st"
  "stepTimerRef (snd (prepare_note env idx st)) = stepTimerRef st"
  "currentTime (snd (prepare_note env idx st)) = currentTime st"
  "timers (snd (prepare_note env idx st)) = timers st"
  "next_timer (snd (prepare_note env idx st)) = next_timer st"
  by (simp_all add: prepare_note_def build_voice_frame split: option.splits)

subsection \<open>The tick\<close>

lemma nextStep_rest:
  assumes "js_index (steps env) idx = None \<or> js_index (steps env) idx = Some []
           \<or> (\<exists>nt. js_index (steps env) idx = Some nt \<and> NOTE_FREQS_get nt = None)"
  shows "nextStep env idx st =
           (Returned, schedule_next env idx (stop_previous (st\<lparr>currentStep := idx\<rparr>)))"
  by (simp add: nextStep_def prepare_note_rest[OF assms])

lemma nextStep_found:
  assumes "js_index (steps env) idx = Some nt" "NOTE_FREQS_get nt = Some v"
  shows "nextStep env idx st =
     (case build_voice env v (stop_previous (st\<lparr>currentStep := idx\<rparr>)) of
        (Threw e, st') \<Rightarrow> (Threw e, st')
      | (Returned, st') \<Rightarrow> (Returned, schedule_next env idx st'))"
  by (simp add: nextStep_def prepare_note_found[OF assms])

text \<open>A tick on a resolvable slot, when the persistent graph exists.\<close>

lemma nextStep_Num:
  assumes "persist_inv st"
    and "js_index (steps env) idx = Some nt" "NOTE_FREQS_get nt = Some (Num f)"
  shows "nextStep env idx st =
     (Returned,
      (stop_previous (st\<lparr>currentStep := idx\<rparr>))
        \<lparr>nodes := (nodes (stop_previous (st\<lparr>currentStep := idx\<rparr>)))
           (next_node st :=
              \<lparr>kind = OscillatorNode, osc_type = waveform env, filter_type = ''lowpass'',
               param_value = f, events = [SetValueAtTime f (currentTime st)],
               outputs = [ToNode (next_node st + 2)],
               start_time = Some (currentTime st),
               stop_time = Some (currentTime st + adsr_a (adsr env) + adsr_d (adsr env)
                                   + adsr_r (adsr env))\<rparr>,
            next_node st + 1 :=
              \<lparr>kind = GainNode, osc_type = Sine, filter_type = ''lowpass'',
               param_value = volume env,
               events =
                 [SetValueAtTime 0 (currentTime st),
                  LinearRampToValueAtTime (volume env) (currentTime st + adsr_a (adsr env)),
                  LinearRampToValueAtTime (volume env * adsr_s (adsr env))
                    (currentTime st + adsr_a (adsr env) + adsr_d (adsr env)),
                  LinearRampToValueAtTime 0
                    (currentTime st + adsr_a (adsr env) + adsr_d (adsr env)
                       + adsr_r (adsr env))],
               outputs = [ToNode 0, ToNode 2],
               start_time = None, stop_time = None\<rparr>,
            next_node st + 2 :=
              \<lparr>kind = BiquadFilterNode, osc_type = Sine, filter_type = ''lowpass'',
               param_value = filter_hz env,
               events = [SetValueAtTime (filter_hz env) (currentTime st)],
               outputs = [ToNode (next_node st + 1)],
               start_time = None, stop_time = None\<rparr>),
         next_node := next_node st + 3,
         lastOscRef := Some (next_node st),
         lastGainRef := Some (next_node st + 1),
         lastFilterRef := Some (next_node st + 2),
         timers := (timers st)(next_timer st \<mapsto>
                      \<lparr>delay = 60 * 1000 / bpm env / 4, t_env = env, t_idx = idx\<rparr>),
         stepTimerRef := Some (next_timer st),
         next_timer := Suc (next_timer st)\<rparr>)"
proof -
  let ?s1 = "stop_previous (st\<lparr>currentStep := idx\<rparr>)"
  from assms(1) have p: "audioCtxRef ?s1" "dryGainRef ?s1 = Some 0" "convolverRef ?s1 = Some 2"
    by (simp_all add: persist_inv_def stop_previous_persist)
  show ?thesis
    by (simp add: nextStep_found[OF assms(2,3)] build_voice_Num[OF p] schedule_next_def
        Let_def stop_previous_fields)
qed

lemma nextStep_Obj:
  assumes "persist_inv st"
    and "js_index (steps env) idx = Some nt" "NOTE_FREQS_get nt = Some Obj"
  shows "nextStep env idx st =
     (Threw TypeError,
      (stop_previous (st\<lparr>currentStep := idx\<rparr>))
        \<lparr>nodes := (nodes (stop_previous (st\<lparr>currentStep := idx\<rparr>)))
           (next_node st := (fresh_node OscillatorNode)\<lparr>osc_type := waveform env\<rparr>,
            next_node st + 1 := fresh_node GainNode,
            next_node st + 2 := fresh_node BiquadFilterNode),
         next_node := next_node st + 3\<rparr>)"
proof -
  let ?s1 = "stop_previous (st\<lparr>currentStep := idx\<rparr>)"
  from assms(1) have p: "audioCtxRef ?s1"
    by (simp_all add: persist_inv_def stop_previous_persist)
  show ?thesis
    by (simp add: nextStep_found[OF assms(2,3)] build_voice_Obj[OF p] stop_previous_fields)
qed

text \<open>The timer a tick leaves behind, whatever the state it ran in.\<close>

lemma nextStep_timer:
  assumes "fst (nextStep env idx st) = Returned"
  shows "timers (snd (nextStep env idx st)) =
           (timers st)(next_timer st \<mapsto>
              \<lparr>delay = 60 * 1000 / bpm env / 4, t_env = env, t_idx = idx\<rparr>)"
    and "stepTimerRef (snd (nextStep env idx st)) = Some (next_timer st)"
    and "next_timer (snd (nextStep env idx st)) = Suc (next_timer st)"
proof -
  let ?s1 = "stop_previous (st\<lparr>currentStep := idx\<rparr>)"
  obtain out s2 where p: "prepare_note env idx ?s1 = (out, s2)"
    by (meson surj_pair)
  from assms p have r: "out = Returned"
    by (cases out) (simp_all add: nextStep_def)
  have f: "timers s2 = timers st" "next_timer s2 = next_timer st"
    using prepare_note_frame(7,8)[of env idx ?s1] by (simp_all add: p stop_previous_fields)
  have e: "nextStep env idx st = (Returned, schedule_next env idx s2)"
    by (simp add: nextStep_def p r)
  show "timers (snd (nextStep env idx st)) =
           (timers st)(next_timer st \<mapsto>
              \<lparr>delay = 60 * 1000 / bpm env / 4, t_env = env, t_idx = idx\<rparr>)"
    by (simp add: e schedule_next_def Let_def f)
  show "stepTimerRef (snd (nextStep env idx st)) = Some (next_timer st)"
    by (simp add: e schedule_next_def Let_def f)
  show "next_timer (snd (nextStep env idx st)) = Suc (next_timer st)"
    by (simp add: e schedule_next_def Let_def f)
qed

lemma nextStep_timers_cases:
  "timers (snd (nextStep env idx st)) = timers st
   \<or> timers (snd (nextStep env idx st)) =
       (timers st)(next_timer st \<mapsto>
          \<lparr>delay = 60 * 1000 / bpm env / 4, t_env = env, t_idx = idx\<rparr>)"
proof -
  let ?s1 = "stop_previous (st\<lparr>currentStep := idx\<rparr>)"
  obtain out s2 where p: "prepare_note env idx ?s1 = (out, s2)"
    by (meson surj_pair)
  have f: "timers s2 = timers st" "next_timer s2 = next_timer st"
    using prepare_note_frame(7,8)[of env idx ?s1] by (simp_all add: p stop_previous_fields)
  show ?thesis
    by (cases out) (simp_all add: nextStep_def p schedule_next_def Let_def f)
qed

text \<open>What no tick touches.\<close>

lemma nextStep_frame:
  "ui (snd (nextStep env idx st)) = ui st"
  "playing (snd (nextStep env idx st)) = playing st"
  "playingRef (snd (nextStep env idx st)) = playingRef st"
  "currentTime (snd (nextStep env idx st)) = currentTime st"
  "currentStep (snd (nextStep env idx st)) = idx"
proof -
  let ?s1 = "stop_previous (st\<lparr>currentStep := idx\<rparr>)"
  obtain out s2 where p: "prepare_note env idx ?s1 = (out, s2)"
    by (meson surj_pair)
  have f: "ui s2 = ui st" "playing s2 = playing st" "playingRef s2 = playingRef st"
    "currentTime s2 = currentTime st" "currentStep s2 = idx"
    using prepare_note_frame[of env idx ?s1] by (simp_all add: p stop_previous_fields)
  have e: "snd (nextStep env idx st) = (case out of Returned \<Rightarrow> schedule_next env idx s2
                                         | Threw x \<Rightarrow> s2)"
    by (cases out) (simp_all add: nextStep_def p)
  show "ui (snd (nextStep env idx st)) = ui st"
    by (cases out) (simp_all add: e schedule_next_def Let_def f)
  show "playing (snd (nextStep env idx st)) = playing st"
    by (cases out) (simp_all add: e schedule_next_def Let_def f)
  show "playingRef (snd (nextStep env idx st)) = playingRef st"
    by (cases out) (simp_all add: e schedule_next_def Let_def f)
  show "currentTime (snd (nextStep env idx st)) = currentTime st"
    by (cases out) (simp_all add: e schedule_next_def Let_def f)
  show "currentStep (snd (nextStep env idx st)) = idx"
    by (cases out) (simp_all add: e schedule_next_def Let_def f)
qed

subsection \<open>Transport and edits\<close>

lemma click_play:
  assumes "\<not> playing st" "\<not> playingRef st" "audioCtxRef st"
  shows "click_button st =
           snd (nextStep (ui st) (Ix 0)
                  (st\<lparr>playing := True, playingRef := True, currentStep := Ix (- 1)\<rparr>))"
  using assms by (simp add: click_button_def playSequence_def Let_def)

lemma fire_playing:
  assumes "timers st t = Some tm" "playingRef st"
  shows "fire_timer t st =
           snd (nextStep (t_env tm) (next_index (t_idx tm) (length (steps (t_env tm))))
                  (st\<lparr>timers := (timers st)(t := None)\<rparr>))"
  using assms by (simp add: fire_timer_def timer_callback_def)

lemma stopSequence_fields:
  "\<not> playing (stopSequence st)" "\<not> playingRef (stopSequence st)"
  "currentStep (stopSequence st) = Ix (- 1)"
  "lastOscRef (stopSequence st) = None" "lastGainRef (stopSequence st) = None"
  "lastFilterRef (stopSequence st) = None"
  "timers (stopSequence st) =
     (case stepTimerRef st of
        Some t \<Rightarrow> if t \<noteq> 0 then (timers st)(t := None) else timers st
      | None \<Rightarrow> timers st)"
  by (simp_all add: stopSequence_def Let_def stop_previous_fields split: option.splits)

lemma stopSequence_frame:
  "ui (stopSequence st) = ui st" "currentTime (stopSequence st) = currentTime st"
  by (simp_all add: stopSequence_def Let_def stop_previous_fields split: option.splits)

lemma stopSequence_nodes:
  "nodes (stopSequence st) =
     nodes (stop_previous (st\<lparr>playing := False, playingRef := False,
                               currentStep := Ix (- 1)\<rparr>))"
proof (cases "stepTimerRef st")
  case None
  then show ?thesis by (simp add: stopSequence_def Let_def)
next
  case (Some t)
  show ?thesis
  proof (cases "t = 0")
    case True
    with Some show ?thesis by (simp add: stopSequence_def Let_def)
  next
    case False
    with Some show ?thesis
      by (simp add: stopSequence_def Let_def) (rule stop_previous_nodes_cong; simp)
  qed
qed

lemma reverb_effect_eq:
  assumes "dryGainRef st = Some 0" "wetGainRef st = Some 1"
  shows "reverb_effect env st =
     st\<lparr>nodes := (nodes st)
          (0 := (nodes st 0)
             \<lparr>param_value := 1 - reverb env,
              events := events (nodes st 0) @ [SetValueAtTime (1 - reverb env) (currentTime st)]\<rparr>,
           1 := (nodes st 1)
             \<lparr>param_value := reverb env,
              events := events (nodes st 1) @ [SetValueAtTime (reverb env) (currentTime st)]\<rparr>)\<rparr>"
  using assms unfolding reverb_effect_def Let_def
  by (simp add: api_defs fun_eq_iff)

lemma handleAdsrChange_eq:
  assumes "audioCtxRef st" "lastGainRef st = Some g"
  shows "handleAdsrChange env field val st =
     st\<lparr>ui := (ui st)\<lparr>adsr := set_field field (clamp val 0 2) (adsr env)\<rparr>,
        nodes := (nodes st)
          (g := (nodes st g)
             \<lparr>events :=
                filter (\<lambda>e. event_time e < currentTime st) (events (nodes st g)) @
                [SetValueAtTime 0 (currentTime st),
                 LinearRampToValueAtTime (volume env) (currentTime st + adsr_a (adsr env)),
                 LinearRampToValueAtTime (volume env * adsr_s (adsr env))
                   (currentTime st + adsr_a (adsr env) + adsr_d (adsr env)),
                 LinearRampToValueAtTime 0
                   (currentTime st + adsr_a (adsr env) + adsr_d (adsr env)
                      + adsr_r (adsr env))]\<rparr>)\<rparr>"
  using assms unfolding handleAdsrChange_def Let_def
  by (simp add: api_defs fun_eq_iff)

text \<open>
  What a tick schedules. A tick that returns leaves one new timer, whose delay is
  \<open>60000 / bpm / 4\<close> milliseconds for the \<^verbatim>\<open>bpm\<close> of the render the tick closes
  over, whatever the state (and so whatever the tempo currently selected) it runs in; the
  timer's callback closes over that same render. When the timer fires during playback, the
  tick it runs reads the sequence and its length from that render, too. The first tick of
  a playback closes over the render whose button was clicked.
\<close>

lemma tick_delay_from_closure:
  assumes "bpm env \<noteq> 0" "fst (nextStep env idx st) = Returned"
  shows "timers (snd (nextStep env idx st)) (next_timer st)
           = Some \<lparr>delay = 60000 / bpm env / 4, t_env = env, t_idx = idx\<rparr>
     \<and> stepTimerRef (snd (nextStep env idx st)) = Some (next_timer st)
     \<and> (\<forall>s t tm. timers s t = Some tm \<and> playingRef s \<longrightarrow>
            fire_timer t s =
              snd (nextStep (t_env tm) (next_index (t_idx tm) (length (steps (t_env tm))))
                     (s\<lparr>timers := (timers s)(t := None)\<rparr>)))
     \<and> (\<forall>s. \<not> playing s \<and> \<not> playingRef s \<and> audioCtxRef s \<longrightarrow>
            click_button s =
              snd (nextStep (ui s) (Ix 0)
                     (s\<lparr>playing := True, playingRef := True, currentStep := Ix (- 1)\<rparr>)))"
  using nextStep_timer[OF assms(2)] by (simp add: fire_playing click_play)

subsection \<open>The mounted component\<close>

lemma ensure_ctx:
  "(if \<not> audioCtxRef st then st\<lparr>audioCtxRef := True\<rparr> else st) = st\<lparr>audioCtxRef := True\<rparr>"
  by simp

lemma mount_effect_fresh:
  assumes "dryGainRef st = None" "wetGainRef st = None" "convolverRef st = None"
  shows "mount_effect env st =
     st\<lparr>audioCtxRef := True,
        nodes := (nodes st)
          (next_node st :=
             (fresh_node GainNode)
               \<lparr>param_value := 1 - reverb env,
                events := [SetValueAtTime (1 - reverb env) (currentTime st)],
                outputs := [Destination]\<rparr>,
           next_node st + 1 :=
             (fresh_node GainNode)
               \<lparr>param_value := reverb env,
                events := [SetValueAtTime (reverb env) (currentTime st)],
                outputs := [Destination]\<rparr>,
           next_node st + 2 :=
             (fresh_node ConvolverNode)\<lparr>outputs := [ToNode (next_node st + 1)]\<rparr>),
        next_node := next_node st + 3,
        dryGainRef := Some (next_node st), wetGainRef := Some (next_node st + 1),
        convolverRef := Some (next_node st + 2)\<rparr>"
  using assms unfolding mount_effect_def ensure_ctx Let_def split_def
  by (simp add: api_defs fresh_node_def fun_eq_iff)

lemma mounted_eq:
  "mounted = initial
     \<lparr>audioCtxRef := True, dryGainRef := Some 0, wetGainRef := Some 1, convolverRef := Some 2,
      nodes := (\<lambda>_. fresh_node Unallocated)
        (0 := (fresh_node GainNode)
                \<lparr>param_value := 0.99,
                 events := [SetValueAtTime 0.99 0, SetValueAtTime 0.99 0],
                 outputs := [Destination]\<rparr>,
         1 := (fresh_node GainNode)
                \<lparr>param_value := 0.01,
                 events := [SetValueAtTime 0.01 0, SetValueAtTime 0.01 0],
                 outputs := [Destination]\<rparr>,
         2 := (fresh_node ConvolverNode)\<lparr>outputs := [ToNode 1]\<rparr>),
      next_node := 3\<rparr>"
proof -
  have r: "dryGainRef initial = None" "wetGainRef initial = None" "convolverRef initial = None"
    "lastOscRef initial = None" "lastGainRef initial = None" "lastFilterRef initial = None"
    "next_node initial = 0" "reverb (ui initial) = 0.01"
    "nodes initial = (\<lambda>_. fresh_node Unallocated)" "currentTime initial = 0"
    by (simp_all add: initial_def)
  show ?thesis
    unfolding mounted_def Let_def mount_effect_fresh[OF r(1-3)]
    by (simp add: reverb_effect_def waveform_effect_def filter_effect_def volume_effect_def
        r set_value_def update_node_def fun_eq_iff)
qed

lemma mounted_fields:
  "persist_inv mounted" "next_node mounted = 3" "currentTime mounted = 0"
  "lastOscRef mounted = None" "lastGainRef mounted = None" "lastFilterRef mounted = None"
  "timers mounted = Map.empty" "next_timer mounted = 1" "\<not> playingRef mounted"
  "\<not> playing mounted" "ui mounted = ui initial" "stepTimerRef mounted = None"
  by (simp_all add: mounted_eq persist_inv_def initial_def)

lemma ui_initial:
  "steps (ui initial) = DEFAULT_SEQ" "bpm (ui initial) = 120" "volume (ui initial) = 0.5"
  "waveform (ui initial) = Sine" "filter_hz (ui initial) = 20000"
  "adsr (ui initial) = \<lparr>adsr_a = 0.01, adsr_d = 0.1, adsr_s = 0.7, adsr_r = 0.2\<rparr>"
  "reverb (ui initial) = 0.01"
  by (simp_all add: initial_def)

lemma default_notes:
  "js_index (steps (ui mounted)) (Ix 0) = Some ''E3''"
  "js_index (steps (ui mounted)) (Ix 1) = Some ''E3''"
  "NOTE_FREQS_get ''E3'' = Some (Num 164.81)"
  "length (steps (ui mounted)) = 16"
  "bpm (ui mounted) = 120" "waveform (ui mounted) = Sine" "volume (ui mounted) = 0.5"
  "adsr (ui mounted) = \<lparr>adsr_a = 0.01, adsr_d = 0.1, adsr_s = 0.7, adsr_r = 0.2\<rparr>"
  by (simp_all add: mounted_fields ui_initial DEFAULT_SEQ_def NOTE_FREQS_get_def NOTE_FREQS_def)

section \<open>The invariants hold in every reachable state\<close>

subsection \<open>Nodes, refs and transport\<close>

lemma stop_previous_wf:
  assumes "voice_inv st"
  shows "stop_previous st =
     (case lastOscRef st of
        None \<Rightarrow> st
      | Some n \<Rightarrow>
          st\<lparr>nodes := (nodes st)
               (n := (nodes st n)\<lparr>stop_time := Some 0, outputs := []\<rparr>,
                n + 1 := (nodes st (n + 1))\<lparr>outputs := []\<rparr>,
                n + 2 := (nodes st (n + 2))\<lparr>outputs := []\<rparr>),
             lastOscRef := None, lastGainRef := None, lastFilterRef := None\<rparr>)"
proof (cases "lastOscRef st")
  case None
  with assms show ?thesis by (simp add: voice_inv_def stop_previous_idle)
next
  case (Some n)
  with assms show ?thesis by (simp add: voice_inv_def stop_previous_voice)
qed

lemma stop_previous_keeps:
  assumes "persist_inv st" "voice_inv st" "mono_inv st"
  shows "persist_inv (stop_previous st)" "voice_inv (stop_previous st)"
    "mono_inv (stop_previous st)"
    "lastOscRef (stop_previous st) = None"
    "timers (stop_previous st) = timers st" "next_timer (stop_previous st) = next_timer st"
    "playing (stop_previous st) = playing st" "playingRef (stop_previous st) = playingRef st"
    "currentStep (stop_previous st) = currentStep st"
    "stepTimerRef (stop_previous st) = stepTimerRef st"
proof -
  note eq = stop_previous_wf[OF assms(2)]
  show "persist_inv (stop_previous st)"
    using assms(1) by (cases "lastOscRef st") (simp_all add: eq persist_inv_def)
  show "voice_inv (stop_previous st)"
    using assms(2) by (cases "lastOscRef st") (simp_all add: eq voice_inv_def)
  show "mono_inv (stop_previous st)"
    using assms(3) unfolding mono_inv_def started_connected_def
    by (cases "lastOscRef st") (auto simp add: eq)
  show "lastOscRef (stop_previous st) = None"
    by (cases "lastOscRef st") (simp_all add: eq)
  show "timers (stop_previous st) = timers st"
    by (cases "lastOscRef st") (simp_all add: eq)
  show "next_timer (stop_previous st) = next_timer st"
    by (cases "lastOscRef st") (simp_all add: eq)
  show "playing (stop_previous st) = playing st"
    by (cases "lastOscRef st") (simp_all add: eq)
  show "playingRef (stop_previous st) = playingRef st"
    by (cases "lastOscRef st") (simp_all add: eq)
  show "currentStep (stop_previous st) = currentStep st"
    by (cases "lastOscRef st") (simp_all add: eq)
  show "stepTimerRef (stop_previous st) = stepTimerRef st"
    by (cases "lastOscRef st") (simp_all add: eq)
qed

lemma build_voice_keeps:
  assumes "persist_inv st" "voice_inv st" "mono_inv st" "lastOscRef st = None"
  shows "persist_inv (snd (build_voice env v st))" "voice_inv (snd (build_voice env v st))"
    "mono_inv (snd (build_voice env v st))"
    "timers (snd (build_voice env v st)) = timers st"
    "next_timer (snd (build_voice env v st)) = next_timer st"
    "playing (snd (build_voice env v st)) = playing st"
    "playingRef (snd (build_voice env v st)) = playingRef st"
    "stepTimerRef (snd (build_voice env v st)) = stepTimerRef st"
proof -
  from assms(1) have p: "audioCtxRef st" "dryGainRef st = Some 0" "convolverRef st = Some 2"
    "3 \<le> next_node st"
    by (simp_all add: persist_inv_def)
  note eqs = build_voice_Num[OF p(1-3)] build_voice_Obj[OF p(1)]
  show "persist_inv (snd (build_voice env v st))"
    using assms(1) by (cases v) (simp_all add: eqs persist_inv_def)
  show "voice_inv (snd (build_voice env v st))"
    using assms(2,4) p(4) by (cases v) (simp_all add: eqs voice_inv_def)
  show "mono_inv (snd (build_voice env v st))"
    using assms(3,4) unfolding mono_inv_def started_connected_def
    by (cases v) (auto simp add: eqs fresh_node_def)
  show "timers (snd (build_voice env v st)) = timers st"
    by (cases v) (simp_all add: eqs)
  show "next_timer (snd (build_voice env v st)) = next_timer st"
    by (cases v) (simp_all add: eqs)
  show "playing (snd (build_voice env v st)) = playing st"
    by (cases v) (simp_all add: eqs)
  show "playingRef (snd (build_voice env v st)) = playingRef st"
    by (cases v) (simp_all add: eqs)
  show "stepTimerRef (snd (build_voice env v st)) = stepTimerRef st"
    by (cases v) (simp_all add: eqs)
qed

lemma prepare_note_keeps:
  assumes "persist_inv st" "voice_inv st" "mono_inv st" "lastOscRef st = None"
  shows "persist_inv (snd (prepare_note env idx st))" "voice_inv (snd (prepare_note env idx st))"
    "mono_inv (snd (prepare_note env idx st))"
    "timers (snd (prepare_note env idx st)) = timers st"
    "next_timer (snd (prepare_note env idx st)) = next_timer st"
    "playing (snd (prepare_note env idx st)) = playing st"
    "playingRef (snd (prepare_note env idx st)) = playingRef st"
    "stepTimerRef (snd (prepare_note env idx st)) = stepTimerRef st"
  by (cases rule: slot_cases[of env idx];
      simp add: prepare_note_rest prepare_note_found build_voice_keeps[OF assms] assms)+

lemma schedule_next_keeps:
  shows "persist_inv (schedule_next env idx st) = persist_inv st"
    and "voice_inv (schedule_next env idx st) = voice_inv st"
    and "mono_inv (schedule_next env idx st) = mono_inv st"
  by (simp_all add: schedule_next_def Let_def persist_inv_def voice_inv_def mono_inv_def
      started_connected_def)

lemma schedule_next_transport:
  assumes "playing st" "playingRef st" "next_timer st \<noteq> 0" "\<forall>t. timers st t = None"
  shows "transport_inv (schedule_next env idx st)"
  using assms by (simp add: schedule_next_def Let_def transport_inv_def)

lemma persist_inv_cong:
  assumes "audioCtxRef st' = audioCtxRef st" "dryGainRef st' = dryGainRef st"
    "wetGainRef st' = wetGainRef st" "convolverRef st' = convolverRef st"
    "next_node st' = next_node st"
  shows "persist_inv st' = persist_inv st"
  by (simp add: persist_inv_def assms)

lemma voice_inv_cong:
  assumes "lastOscRef st' = lastOscRef st" "lastGainRef st' = lastGainRef st"
    "lastFilterRef st' = lastFilterRef st" "next_node st' = next_node st"
    "\<And>n. start_time (nodes st' n) = start_time (nodes st n)"
  shows "voice_inv st' = voice_inv st"
  by (simp add: voice_inv_def assms)

lemma mono_inv_cong:
  assumes "lastOscRef st' = lastOscRef st"
    "\<And>n. kind (nodes st' n) = kind (nodes st n)"
    "\<And>n. start_time (nodes st' n) = start_time (nodes st n)"
    "\<And>n. outputs (nodes st' n) = outputs (nodes st n)"
  shows "mono_inv st' = mono_inv st"
  by (simp add: mono_inv_def started_connected_def assms)

lemma transport_inv_cong:
  assumes "playing st' = playing st" "playingRef st' = playingRef st"
    "next_timer st' = next_timer st" "timers st' = timers st"
    "stepTimerRef st' = stepTimerRef st" "currentStep st' = currentStep st"
    "lastOscRef st' = lastOscRef st" "lastGainRef st' = lastGainRef st"
    "lastFilterRef st' = lastFilterRef st"
  shows "transport_inv st' = transport_inv st"
  by (simp add: transport_inv_def assms)

text \<open>The three node invariants survive every tick.\<close>

lemma nextStep_inv:
  assumes "persist_inv st" "voice_inv st" "mono_inv st"
  shows "persist_inv (snd (nextStep env idx st))" "voice_inv (snd (nextStep env idx st))"
    "mono_inv (snd (nextStep env idx st))"
proof -
  let ?s0 = "st\<lparr>currentStep := idx\<rparr>"
  have a0: "persist_inv ?s0" "voice_inv ?s0" "mono_inv ?s0"
    using assms(1-3)
    by (simp_all add: persist_inv_cong[of ?s0 st] voice_inv_cong[of ?s0 st]
        mono_inv_cong[of ?s0 st])
  note k1 = stop_previous_keeps[OF a0]
  obtain out s2 where p: "prepare_note env idx (stop_previous ?s0) = (out, s2)"
    by (meson surj_pair)
  note k2 = prepare_note_keeps[OF k1(1-4), of env idx, unfolded p snd_conv]
  have e: "snd (nextStep env idx st) = (case out of Returned \<Rightarrow> schedule_next env idx s2
                                         | Threw x \<Rightarrow> s2)"
    by (cases out) (simp_all add: nextStep_def p)
  show "persist_inv (snd (nextStep env idx st))"
    using k2(1) by (cases out) (simp_all add: e schedule_next_keeps)
  show "voice_inv (snd (nextStep env idx st))"
    using k2(2) by (cases out) (simp_all add: e schedule_next_keeps)
  show "mono_inv (snd (nextStep env idx st))"
    using k2(3) by (cases out) (simp_all add: e schedule_next_keeps)
qed

lemma nextStep_wf:
  assumes "persist_inv st" "voice_inv st" "mono_inv st"
    and "playing st" "playingRef st" "next_timer st \<noteq> 0" "\<forall>t. timers st t = None"
  shows "wf (snd (nextStep env idx st))"
proof -
  let ?s0 = "st\<lparr>currentStep := idx\<rparr>"
  have a0: "persist_inv ?s0" "voice_inv ?s0" "mono_inv ?s0"
    using assms(1-3)
    by (simp_all add: persist_inv_cong[of ?s0 st] voice_inv_cong[of ?s0 st]
        mono_inv_cong[of ?s0 st])
  let ?s1 = "stop_previous ?s0"
  note k1 = stop_previous_keeps[OF a0]
  obtain out s2 where p: "prepare_note env idx ?s1 = (out, s2)"
    by (meson surj_pair)
  note k2 = prepare_note_keeps[OF k1(1-4), of env idx, unfolded p snd_conv]
  have fields: "playing s2" "playingRef s2" "next_timer s2 \<noteq> 0" "\<forall>t. timers s2 t = None"
    using assms(4-7) by (simp_all add: k1(5-8) k2(4-7))
  have t2: "transport_inv s2"
    using fields by (simp add: transport_inv_def)
  show ?thesis
  proof (cases out)
    case Returned
    have "wf (schedule_next env idx s2)"
      unfolding wf_def
      using k2(1-3) schedule_next_transport[OF fields] by (simp add: schedule_next_keeps)
    with p Returned show ?thesis by (simp add: nextStep_def)
  next
    case (Threw e)
    have "wf s2" unfolding wf_def using k2(1-3) t2 by simp
    with p Threw show ?thesis by (simp add: nextStep_def)
  qed
qed

lemma playSequence_wf:
  assumes "wf st"
  shows "wf (snd (playSequence env st))"
proof (cases "playingRef st")
  case True
  with assms show ?thesis by (simp add: playSequence_def)
next
  case False
  let ?s = "st\<lparr>playing := True, playingRef := True, currentStep := Ix (- 1)\<rparr>"
  from assms have i: "persist_inv st" "voice_inv st" "mono_inv st" "transport_inv st"
    by (simp_all add: wf_def)
  have a: "persist_inv ?s" "voice_inv ?s" "mono_inv ?s"
    using i(1-3)
    by (simp_all add: persist_inv_cong[of ?s st] voice_inv_cong[of ?s st]
        mono_inv_cong[of ?s st])
  have b: "playing ?s" "playingRef ?s" "next_timer ?s \<noteq> 0" "\<forall>t. timers ?s t = None"
    using i(4) False by (auto simp add: transport_inv_def)
  have "wf (snd (nextStep env (Ix 0) ?s))"
    by (rule nextStep_wf[OF a b])
  moreover from i(1) have "audioCtxRef st" by (simp add: persist_inv_def)
  ultimately show ?thesis using False by (simp add: playSequence_def Let_def)
qed

lemma stopSequence_wf:
  assumes "wf st"
  shows "wf (stopSequence st)"
proof -
  from assms have i: "persist_inv st" "voice_inv st" "mono_inv st" "transport_inv st"
    by (simp_all add: wf_def)
  define s2 where
    "s2 = (case stepTimerRef st of
             Some t \<Rightarrow>
               if t \<noteq> 0
               then st\<lparr>playing := False, playingRef := False, currentStep := Ix (- 1),
                       timers := (timers st)(t := None)\<rparr>
               else st\<lparr>playing := False, playingRef := False, currentStep := Ix (- 1)\<rparr>
           | None \<Rightarrow> st\<lparr>playing := False, playingRef := False, currentStep := Ix (- 1)\<rparr>)"
  have eq: "stopSequence st = stop_previous s2"
    by (simp add: stopSequence_def Let_def s2_def split: option.splits)
  have none: "\<forall>t. timers s2 t = None"
    using i(4) by (auto simp add: transport_inv_def s2_def split: option.splits)
  have "persist_inv s2 = persist_inv st"
    by (rule persist_inv_cong) (simp_all add: s2_def split: option.splits)
  moreover have "voice_inv s2 = voice_inv st"
    by (rule voice_inv_cong) (simp_all add: s2_def split: option.splits)
  moreover have "mono_inv s2 = mono_inv st"
    by (rule mono_inv_cong) (simp_all add: s2_def split: option.splits)
  ultimately have a: "persist_inv s2" "voice_inv s2" "mono_inv s2"
    using i(1-3) by simp_all
  note k = stop_previous_keeps[OF a]
  have f: "\<not> playing s2" "\<not> playingRef s2" "currentStep s2 = Ix (- 1)"
    "next_timer s2 = next_timer st"
    by (simp_all add: s2_def split: option.splits)
  from i(4) have nt: "next_timer st \<noteq> 0" by (simp add: transport_inv_def)
  from k(2) k(4) have refs: "lastGainRef (stop_previous s2) = None"
     "lastFilterRef (stop_previous s2) = None"
    by (simp_all add: voice_inv_def)
  have "transport_inv (stop_previous s2)"
    unfolding transport_inv_def using none f nt refs by (simp add: k(4-10))
  with k(1-3) have "wf (stop_previous s2)"
    by (simp add: wf_def)
  then show ?thesis by (simp add: eq)
qed

lemma fire_timer_wf:
  assumes "wf st"
  shows "wf (fire_timer t st)"
proof (cases "timers st t")
  case None
  with assms show ?thesis by (simp add: fire_timer_def)
next
  case (Some tm)
  from assms have i: "persist_inv st" "voice_inv st" "mono_inv st" "transport_inv st"
    by (simp_all add: wf_def)
  let ?s = "st\<lparr>timers := (timers st)(t := None)\<rparr>"
  from i(4) Some have pl: "playingRef st" "playing st" "stepTimerRef st = Some t"
    "next_timer st \<noteq> 0"
    by (auto simp add: transport_inv_def)
  have none: "\<forall>u. timers ?s u = None"
  proof
    fix u
    show "timers ?s u = None"
    proof (cases "u = t")
      case True
      then show ?thesis by simp
    next
      case False
      with i(4) pl(3) show ?thesis by (auto simp add: transport_inv_def)
    qed
  qed
  have a: "persist_inv ?s" "voice_inv ?s" "mono_inv ?s"
    using i(1-3)
    by (simp_all add: persist_inv_cong[of ?s st] voice_inv_cong[of ?s st]
        mono_inv_cong[of ?s st])
  have b: "playing ?s" "playingRef ?s" "next_timer ?s \<noteq> 0"
    using pl by simp_all
  have "wf (snd (nextStep (t_env tm) (next_index (t_idx tm) (length (steps (t_env tm)))) ?s))"
    by (rule nextStep_wf[OF a b none])
  with Some pl show ?thesis by (simp add: fire_timer_def timer_callback_def)
qed

lemma mounted_wf: "wf mounted"
  by (simp add: mounted_eq wf_def persist_inv_def voice_inv_def transport_inv_def mono_inv_def
      started_connected_def initial_def fresh_node_def)

text \<open>An operation that leaves the refs, the transport and the timers alone, and keeps the
  kind, the start and the connections of every node, preserves the invariant.\<close>

lemma wf_frame:
  assumes "wf st"
    and "audioCtxRef st' = audioCtxRef st" "dryGainRef st' = dryGainRef st"
    "wetGainRef st' = wetGainRef st" "convolverRef st' = convolverRef st"
    "next_node st' = next_node st"
    "lastOscRef st' = lastOscRef st" "lastGainRef st' = lastGainRef st"
    "lastFilterRef st' = lastFilterRef st"
    "playing st' = playing st" "playingRef st' = playingRef st"
    "next_timer st' = next_timer st" "timers st' = timers st"
    "stepTimerRef st' = stepTimerRef st" "currentStep st' = currentStep st"
    and "\<And>n. kind (nodes st' n) = kind (nodes st n)"
    "\<And>n. start_time (nodes st' n) = start_time (nodes st n)"
    "\<And>n. outputs (nodes st' n) = outputs (nodes st n)"
  shows "wf st'"
proof -
  have "persist_inv st' = persist_inv st" by (rule persist_inv_cong) (rule assms)+
  moreover have "voice_inv st' = voice_inv st" by (rule voice_inv_cong) (rule assms)+
  moreover have "mono_inv st' = mono_inv st" by (rule mono_inv_cong) (rule assms)+
  moreover have "transport_inv st' = transport_inv st"
    by (rule transport_inv_cong) (rule assms)+
  ultimately show ?thesis using assms(1) by (simp add: wf_def)
qed

lemma clock_wf: "wf st \<Longrightarrow> wf (st\<lparr>currentTime := currentTime st + dt\<rparr>)"
  by (erule wf_frame) simp_all

lemma setWaveform_wf: "wf st \<Longrightarrow> wf (setWaveform w st)"
  by (erule wf_frame)
     (simp_all add: setWaveform_def effect_defs Let_def api_defs split: option.splits)

lemma setFilter_wf: "wf st \<Longrightarrow> wf (setFilter v st)"
  by (erule wf_frame)
     (simp_all add: setFilter_def effect_defs Let_def api_defs split: option.splits)

lemma setVolume_wf: "wf st \<Longrightarrow> wf (setVolume v st)"
  by (erule wf_frame)
     (simp_all add: setVolume_def effect_defs Let_def api_defs split: option.splits)

lemma setReverb_wf: "wf st \<Longrightarrow> wf (setReverb v st)"
  by (erule wf_frame)
     (simp_all add: setReverb_def effect_defs Let_def api_defs split: option.splits)

lemma setBpm_wf: "wf st \<Longrightarrow> wf (setBpm v st)"
  by (erule wf_frame) (simp_all add: setBpm_def)

lemma handleStepChange_wf: "wf st \<Longrightarrow> wf (handleStepChange env i val st)"
  by (erule wf_frame) (simp_all add: handleStepChange_def)

lemma handleAdsrChange_wf: "wf st \<Longrightarrow> wf (handleAdsrChange env field x st)"
  by (erule wf_frame)
     (simp_all add: handleAdsrChange_def Let_def api_defs split: option.splits)

lemma reachable_wf: "reachable st \<Longrightarrow> wf st"
proof (induction rule: reachable.induct)
  case init
  show ?case by (rule mounted_wf)
next
  case (button st)
  then show ?case by (simp add: click_button_def playSequence_wf stopSequence_wf)
qed (simp_all add: clock_wf fire_timer_wf setWaveform_wf setFilter_wf setVolume_wf
      setReverb_wf setBpm_wf handleStepChange_wf handleAdsrChange_wf stopSequence_wf)

lemma reachable_parts:
  assumes "reachable st"
  shows "persist_inv st" "voice_inv st" "transport_inv st" "mono_inv st"
  using reachable_wf[OF assms] by (simp_all add: wf_def)

lemma stopSequence_idle:
  assumes "transport_inv st" "\<not> playingRef st"
  shows "stopSequence st = st"
proof -
  from assms have f: "\<not> playing st" "currentStep st = Ix (- 1)" "lastOscRef st = None"
    "lastGainRef st = None" "lastFilterRef st = None" "\<forall>t. timers st t = None"
    by (auto simp add: transport_inv_def)
  let ?s1 = "st\<lparr>playing := False, playingRef := False, currentStep := Ix (- 1)\<rparr>"
  have a: "?s1 = st"
    using assms(2) f(1,2) by (intro state.equality) simp_all
  have t: "\<And>t. (timers st)(t := None) = timers st"
    using f(6) by (simp add: fun_eq_iff)
  have b: "\<And>t. st\<lparr>timers := (timers st)(t := None)\<rparr> = st"
    by (intro state.equality) (simp_all add: t)
  show ?thesis
    by (simp add: stopSequence_def Let_def a b stop_previous_idle[OF f(3-5)]
        split: option.splits)
qed

text \<open>The nodes that existed before a tick are, after it, as the teardown left them; the
  voice ref is empty or names the first node the tick created.\<close>

lemma nextStep_old_nodes:
  assumes "persist_inv st" "m < next_node st"
  shows "nodes (snd (nextStep env idx st)) m
           = nodes (stop_previous (st\<lparr>currentStep := idx\<rparr>)) m"
  using assms(2)
  by (cases rule: slot_cases[of env idx];
      simp add: nextStep_rest nextStep_Num[OF assms(1)] nextStep_Obj[OF assms(1)]
        schedule_next_def Let_def)

lemma nextStep_lastOsc:
  assumes "persist_inv st"
  shows "lastOscRef (snd (nextStep env idx st)) = None
         \<or> lastOscRef (snd (nextStep env idx st)) = Some (next_node st)"
  by (cases rule: slot_cases[of env idx];
      simp add: nextStep_rest nextStep_Num[OF assms(1)] nextStep_Obj[OF assms(1)]
        schedule_next_def Let_def stop_previous_fields)

lemma live_voice_started_connected: "live_voice st n \<Longrightarrow> started_connected st n"
  by (simp add: live_voice_def started_connected_def)

lemma mono_inv_unique:
  assumes "mono_inv st" "live_voice st n" "live_voice st m"
  shows "n = m"
proof -
  from assms have "lastOscRef st = Some n" "lastOscRef st = Some m"
    by (simp_all add: mono_inv_def live_voice_started_connected)
  then show ?thesis by simp
qed

subsection \<open>Times and tempo\<close>

text \<open>No call of a running component passes a negative time to the audio API, and no tick
  divides by a zero tempo.\<close>

lemma nextStep_times:
  assumes "times_inv st" "render_ok env"
  shows "times_inv (snd (nextStep env idx st))"
proof -
  from assms(1) have a: "0 \<le> currentTime st" "render_ok (ui st)"
    and b: "\<And>t tm. timers st t = Some tm \<Longrightarrow> render_ok (t_env tm)"
    by (auto simp add: times_inv_def)
  have "\<And>t tm. timers (snd (nextStep env idx st)) t = Some tm \<Longrightarrow> render_ok (t_env tm)"
    using nextStep_timers_cases[of env idx st] b assms(2)
    by (auto split: if_splits)
  then show ?thesis
    using a by (simp add: times_inv_def nextStep_frame)
qed

lemma times_inv_cong:
  assumes "times_inv st" "currentTime st' = currentTime st" "adsr (ui st') = adsr (ui st)"
    "bpm (ui st') = bpm (ui st)" "timers st' = timers st"
  shows "times_inv st'"
  using assms by (simp add: times_inv_def render_ok_def)

lemma stopSequence_times:
  assumes "times_inv st"
  shows "times_inv (stopSequence st)"
proof -
  from assms have a: "0 \<le> currentTime st" "render_ok (ui st)"
    and b: "\<And>t tm. timers st t = Some tm \<Longrightarrow> render_ok (t_env tm)"
    by (auto simp add: times_inv_def)
  have "\<And>t tm. timers (stopSequence st) t = Some tm \<Longrightarrow> render_ok (t_env tm)"
    using b by (auto simp add: stopSequence_fields(7) split: option.splits if_splits)
  then show ?thesis using a by (simp add: times_inv_def stopSequence_frame)
qed

lemma reachable_times: "reachable st \<Longrightarrow> times_inv st"
proof (induction rule: reachable.induct)
  case init
  show ?case
    by (simp add: times_inv_def render_ok_def mounted_fields ui_initial)
next
  case (clock st dt)
  then show ?case by (simp add: times_inv_def)
next
  case (button st)
  then have "render_ok (ui st)" by (simp add: times_inv_def)
  with button.IH have "times_inv (snd (nextStep (ui st) (Ix 0)
      (st\<lparr>playing := True, playingRef := True, currentStep := Ix (- 1)\<rparr>)))"
    by (intro nextStep_times) (simp_all add: times_inv_def)
  moreover from button.hyps have "audioCtxRef st"
    using reachable_parts(1) by (simp add: persist_inv_def)
  ultimately show ?case
    using button.IH by (simp add: click_button_def playSequence_def Let_def stopSequence_times)
next
  case (fire st t)
  show ?case
  proof (cases "timers st t")
    case None
    with fire.IH show ?thesis by (simp add: fire_timer_def)
  next
    case (Some tm)
    with fire.IH have n: "render_ok (t_env tm)" by (auto simp add: times_inv_def)
    have "times_inv (st\<lparr>timers := (timers st)(t := None)\<rparr>)"
      using fire.IH by (auto simp add: times_inv_def split: if_splits)
    from nextStep_times[OF this n] fire.IH Some show ?thesis
      by (simp add: fire_timer_def timer_callback_def times_inv_def split: if_splits)
  qed
next
  case (edit_waveform st w)
  from edit_waveform.IH show ?case
    by (rule times_inv_cong)
       (simp_all add: setWaveform_def effect_defs Let_def update_node_fields
          split: option.splits)
next
  case (edit_filter st v)
  from edit_filter.IH show ?case
    by (rule times_inv_cong)
       (simp_all add: setFilter_def effect_defs Let_def set_value_def update_node_fields
          split: option.splits)
next
  case (edit_volume st v)
  from edit_volume.IH show ?case
    by (rule times_inv_cong)
       (simp_all add: setVolume_def effect_defs Let_def set_value_def update_node_fields
          split: option.splits)
next
  case (edit_reverb st v)
  from edit_reverb.IH show ?case
    by (rule times_inv_cong)
       (simp_all add: setReverb_def effect_defs Let_def set_value_def update_node_fields
          split: option.splits)
next
  case (edit_bpm st v)
  then show ?case
    by (simp add: times_inv_def render_ok_def setBpm_def clamp_def)
next
  case (edit_step st i val)
  from edit_step.IH show ?case
    by (rule times_inv_cong) (simp_all add: handleStepChange_def)
next
  case (edit_adsr st field val)
  then have a: "0 \<le> currentTime st" "render_ok (ui st)"
    and b: "\<And>t tm. timers st t = Some tm \<Longrightarrow> render_ok (t_env tm)"
    by (auto simp add: times_inv_def)
  let ?st' = "handleAdsrChange (ui st) field val st"
  have f: "currentTime ?st' = currentTime st" "timers ?st' = timers st"
    "adsr (ui ?st') = set_field field (clamp val 0 2) (adsr (ui st))"
    "bpm (ui ?st') = bpm (ui st)"
    unfolding handleAdsrChange_def Let_def
    by (simp_all add: api_to_update update_node_fields split: option.splits)
  have "render_ok (ui ?st')"
    unfolding render_ok_def f(3,4)
    using a(2) by (cases field) (simp_all add: render_ok_def clamp_def)
  with a(1) b show ?case by (simp add: times_inv_def f(1,2))
next
  case (cleanup st)
  then show ?case by (simp add: stopSequence_times)
qed

subsection \<open>The sequence\<close>



text \<open>The sequence of the first render is selectable; an edit through a step select keeps
  it so, and no other operation of the component changes a sequence or puts a render that
  is not selectable into a timer.\<close>

lemma selectable_edit:
  assumes "selectable env" "val \<in> set step_options"
  shows "selectable (env'\<lparr>steps := (steps env)[i := val]\<rparr>)"
  using assms set_update_subset_insert[of "steps env" i val]
  by (auto simp add: selectable_def list_all_iff)

lemma slots_inv_cong:
  assumes "slots_inv st" "steps (ui st') = steps (ui st)" "timers st' = timers st"
  shows "slots_inv st'"
  using assms by (simp add: slots_inv_def selectable_def)

lemma nextStep_slots:
  assumes "slots_inv st" "selectable env"
  shows "slots_inv (snd (nextStep env idx st))"
proof -
  from assms(1) have a: "selectable (ui st)"
    and b: "\<And>t tm. timers st t = Some tm \<Longrightarrow> selectable (t_env tm)"
    by (auto simp add: slots_inv_def)
  have "\<And>t tm. timers (snd (nextStep env idx st)) t = Some tm \<Longrightarrow> selectable (t_env tm)"
    using nextStep_timers_cases[of env idx st] b assms(2)
    by (auto split: if_splits)
  then show ?thesis
    using a by (simp add: slots_inv_def nextStep_frame)
qed

lemma stopSequence_slots:
  assumes "slots_inv st"
  shows "slots_inv (stopSequence st)"
proof -
  from assms have a: "selectable (ui st)"
    and b: "\<And>t tm. timers st t = Some tm \<Longrightarrow> selectable (t_env tm)"
    by (auto simp add: slots_inv_def)
  have "\<And>t tm. timers (stopSequence st) t = Some tm \<Longrightarrow> selectable (t_env tm)"
    using b by (auto simp add: stopSequence_fields(7) split: option.splits if_splits)
  then show ?thesis using a by (simp add: slots_inv_def stopSequence_frame)
qed

lemma slots_inv_mounted: "slots_inv mounted"
  by (simp add: slots_inv_def selectable_def mounted_fields ui_initial DEFAULT_SEQ_def
      step_options_def NOTE_LIST_def)

lemma slots_inv_kept:
  assumes "slots_inv st"
  shows "slots_inv (st\<lparr>currentTime := currentTime st + dt\<rparr>)"
    and "slots_inv (click_button st)"
    and "slots_inv (fire_timer t st)"
    and "slots_inv (setWaveform w st)"
    and "slots_inv (setFilter v st)"
    and "slots_inv (setVolume v st)"
    and "slots_inv (setReverb v st)"
    and "slots_inv (setBpm v st)"
    and "val \<in> set step_options \<Longrightarrow> slots_inv (handleStepChange (ui st) i val st)"
    and "slots_inv (handleAdsrChange (ui st) field x st)"
    and "slots_inv (stopSequence st)"
proof -
  from assms have a: "selectable (ui st)"
    and b: "\<And>t tm. timers st t = Some tm \<Longrightarrow> selectable (t_env tm)"
    by (auto simp add: slots_inv_def)
  show "slots_inv (st\<lparr>currentTime := currentTime st + dt\<rparr>)"
    using assms by (rule slots_inv_cong) simp_all
  show "slots_inv (click_button st)"
  proof (cases "playing st")
    case True
    then show ?thesis by (simp add: click_button_def stopSequence_slots[OF assms])
  next
    case False
    let ?p = "st\<lparr>playing := True, playingRef := True, currentStep := Ix (- 1),
                  audioCtxRef := True\<rparr>"
    have "slots_inv ?p" using assms by (rule slots_inv_cong) simp_all
    from nextStep_slots[OF this a, of "Ix 0"] assms False show ?thesis
      unfolding click_button_def playSequence_def Let_def ensure_ctx by simp
  qed
  show "slots_inv (fire_timer t st)"
  proof (cases "timers st t")
    case None
    with assms show ?thesis by (simp add: fire_timer_def)
  next
    case (Some tm)
    with b have n: "selectable (t_env tm)" by simp
    have r: "slots_inv (st\<lparr>timers := (timers st)(t := None)\<rparr>)"
      using a b by (auto simp add: slots_inv_def split: if_splits)
    from nextStep_slots[OF r n] r Some show ?thesis
      by (simp add: fire_timer_def timer_callback_def)
  qed
  show "slots_inv (setWaveform w st)"
    using assms
    by (rule slots_inv_cong)
       (simp_all add: setWaveform_def effect_defs Let_def update_node_fields
          split: option.splits)
  show "slots_inv (setFilter v st)"
    using assms
    by (rule slots_inv_cong)
       (simp_all add: setFilter_def effect_defs Let_def set_value_def update_node_fields
          split: option.splits)
  show "slots_inv (setVolume v st)"
    using assms
    by (rule slots_inv_cong)
       (simp_all add: setVolume_def effect_defs Let_def set_value_def update_node_fields
          split: option.splits)
  show "slots_inv (setReverb v st)"
    using assms
    by (rule slots_inv_cong)
       (simp_all add: setReverb_def effect_defs Let_def set_value_def update_node_fields
          split: option.splits)
  show "slots_inv (setBpm v st)"
    using assms by (rule slots_inv_cong) (simp_all add: setBpm_def)
  show "slots_inv (handleStepChange (ui st) i val st)" if "val \<in> set step_options"
    using selectable_edit[OF a that, where env' = "ui st" and i = i] b
    by (simp add: slots_inv_def handleStepChange_def)
  show "slots_inv (handleAdsrChange (ui st) field x st)"
    using assms unfolding handleAdsrChange_def Let_def
    by (rule slots_inv_cong)
       (simp_all add: api_to_update update_node_fields split: option.splits)
  show "slots_inv (stopSequence st)" by (rule stopSequence_slots[OF assms])
qed

subsection \<open>A concrete run: Play on the mounted component\<close>

lemma played:
  "reachable (click_button mounted)"
  "timers (click_button mounted) 1
     = Some \<lparr>delay = 125, t_env = ui mounted, t_idx = Ix 0\<rparr>"
  "next_timer (click_button mounted) = 2" "playingRef (click_button mounted)"
  "next_node (click_button mounted) = 6" "lastOscRef (click_button mounted) = Some 3"
  "lastGainRef (click_button mounted) = Some 4"
  "ui (click_button mounted) = ui mounted" "currentTime (click_button mounted) = 0"
  "osc_type (nodes (click_button mounted) 3) = Sine"
  "stop_time (nodes (click_button mounted) 3) = Some 0.31"
proof -
  let ?p = "mounted\<lparr>playing := True, playingRef := True, currentStep := Ix (- 1)\<rparr>"
  have c: "click_button mounted = snd (nextStep (ui mounted) (Ix 0) ?p)"
    using mounted_fields(1) by (simp add: click_play mounted_fields(9,10) persist_inv_def)
  have p: "persist_inv ?p"
    using mounted_fields(1) by (simp add: persist_inv_def)
  note e = nextStep_Num[OF p default_notes(1) default_notes(3)]
  show "reachable (click_button mounted)" by (rule reachable.button[OF reachable.init])
  show "timers (click_button mounted) 1
     = Some \<lparr>delay = 125, t_env = ui mounted, t_idx = Ix 0\<rparr>"
    by (simp add: c e mounted_fields(2-10) default_notes(5))
  show "next_timer (click_button mounted) = 2"
    by (simp add: c e mounted_fields(2-10))
  show "playingRef (click_button mounted)"
    by (simp add: c e stop_previous_fields)
  show "next_node (click_button mounted) = 6"
    by (simp add: c e mounted_fields(2-10))
  show "lastOscRef (click_button mounted) = Some 3"
    by (simp add: c e mounted_fields(2-10))
  show "lastGainRef (click_button mounted) = Some 4"
    by (simp add: c e mounted_fields(2-10))
  show "ui (click_button mounted) = ui mounted"
    by (simp add: c e stop_previous_fields)
  show "currentTime (click_button mounted) = 0"
    by (simp add: c e stop_previous_fields mounted_fields(2-10))
  show "osc_type (nodes (click_button mounted) 3) = Sine"
    by (simp add: c e mounted_fields(2-10) default_notes(6))
  show "stop_time (nodes (click_button mounted) 3) = Some 0.31"
    by (simp add: c e mounted_fields(2-10) default_notes(8))
qed

lemma played_gain_events:
  "events (nodes (click_button mounted) 4) =
     [SetValueAtTime 0 0, LinearRampToValueAtTime 0.5 0.01,
      LinearRampToValueAtTime 0.35 0.11, LinearRampToValueAtTime 0 0.31]"
proof -
  let ?p = "mounted\<lparr>playing := True, playingRef := True, currentStep := Ix (- 1)\<rparr>"
  have c: "click_button mounted = snd (nextStep (ui mounted) (Ix 0) ?p)"
    using mounted_fields(1) by (simp add: click_play mounted_fields(9,10) persist_inv_def)
  have p: "persist_inv ?p"
    using mounted_fields(1) by (simp add: persist_inv_def)
  note e = nextStep_Num[OF p default_notes(1) default_notes(3)]
  show ?thesis
    by (simp add: c e mounted_fields(2-10) default_notes(7,8))
qed

section \<open>The claims\<close>

subsection \<open>C1: one voice at a time\<close>

text \<open>
  Claim C1. In every state the component can reach, and for every tick run in it (whatever
  render and index the tick closes over), at most one voice is live when \<^verbatim>\<open>nextStep\<close>
  returns or raises. The tick tears the previous voice down before it builds anything: the
  oscillator the voice ref named before the tick is stopped and disconnected afterwards,
  and a voice that is live afterwards is the one the ref names, built by this tick on a
  node created by this tick.
\<close>

theorem monophonic_after_tick:
  assumes "reachable st"
  shows "(\<forall>n m. live_voice (snd (nextStep env idx st)) n
                 \<longrightarrow> live_voice (snd (nextStep env idx st)) m \<longrightarrow> n = m)
     \<and> (\<forall>n. live_voice (snd (nextStep env idx st)) n \<longrightarrow>
            lastOscRef (snd (nextStep env idx st)) = Some n \<and> n = next_node st)
     \<and> (\<forall>n. lastOscRef st = Some n \<longrightarrow>
            \<not> live_voice (snd (nextStep env idx st)) n
            \<and> outputs (nodes (snd (nextStep env idx st)) n) = []
            \<and> stop_time (nodes (snd (nextStep env idx st)) n) = Some 0)"
proof -
  let ?st' = "snd (nextStep env idx st)"
  note i = reachable_parts[OF assms]
  note j = nextStep_inv[OF i(1,2,4), of env idx]
  have one: "\<forall>n m. live_voice ?st' n \<longrightarrow> live_voice ?st' m \<longrightarrow> n = m"
    using mono_inv_unique[OF j(3)] by blast
  have new: "\<forall>n. live_voice ?st' n \<longrightarrow> lastOscRef ?st' = Some n \<and> n = next_node st"
  proof (intro allI impI)
    fix n
    assume "live_voice ?st' n"
    then have "lastOscRef ?st' = Some n"
      using j(3) by (simp add: mono_inv_def live_voice_started_connected)
    with nextStep_lastOsc[OF i(1), of env idx]
    show "lastOscRef ?st' = Some n \<and> n = next_node st" by auto
  qed
  have old: "\<forall>n. lastOscRef st = Some n \<longrightarrow>
            \<not> live_voice ?st' n \<and> outputs (nodes ?st' n) = []
            \<and> stop_time (nodes ?st' n) = Some 0"
  proof (intro allI impI)
    fix n
    assume r: "lastOscRef st = Some n"
    with i(2) have "n < next_node st" by (simp add: voice_inv_def)
    then have "nodes ?st' n = nodes (stop_previous (st\<lparr>currentStep := idx\<rparr>)) n"
      by (rule nextStep_old_nodes[OF i(1)])
    moreover have "outputs (nodes (stop_previous (st\<lparr>currentStep := idx\<rparr>)) n) = []
        \<and> stop_time (nodes (stop_previous (st\<lparr>currentStep := idx\<rparr>)) n) = Some 0"
      using r by (intro stop_previous_tears_down(1)) simp
    ultimately show "\<not> live_voice ?st' n \<and> outputs (nodes ?st' n) = []
            \<and> stop_time (nodes ?st' n) = Some 0"
      by (simp add: live_voice_def)
  qed
  from one new old show ?thesis by blast
qed

theorem monophonic_after_tick_witness:
  "reachable (click_button mounted)
   \<and> lastOscRef (click_button mounted) = Some 3
   \<and> \<not> live_voice (snd (nextStep (ui mounted) (Ix 1) (click_button mounted))) 3
   \<and> outputs (nodes (snd (nextStep (ui mounted) (Ix 1) (click_button mounted))) 3) = []
   \<and> stop_time (nodes (snd (nextStep (ui mounted) (Ix 1) (click_button mounted))) 3) = Some 0"
  using monophonic_after_tick[OF played(1), of "ui mounted" "Ix 1"] played(1,6)
  by simp

subsection \<open>C2: the envelope of a trigger\<close>

text \<open>
  Claim C2. In every reachable state, a tick whose slot resolves to a frequency builds a
  gain node whose automation timeline holds exactly four points, in this order: value 0 at
  \<open>t0\<close>, a linear ramp to \<open>v\<close> at \<open>t0 + a\<close>, a linear ramp to \<open>v * s\<close> at
  \<open>t0 + a + d\<close>, a linear ramp to 0 at \<open>t0 + a + d + r\<close>, where \<open>t0\<close> is the audio
  clock at the tick and \<open>a, d, s, r, v\<close> are the envelope parameters and the volume of
  the tick. Nothing else is left on the timeline: the cancellation of line 236 removes what
  is pending at or after \<open>t0\<close>, and on the new node that is the point which the write of
  the volume to the gain's \<^verbatim>\<open>value\<close> (line 225) left at \<open>t0\<close>. In general a
  cancellation at the current instant removes the point of a \<^verbatim>\<open>value\<close> write made at
  that instant, together with every other point at or after it, and keeps the earlier ones.
  For \<open>a = 0.01, d = 0.1, s = 0.7, r = 0.2, v = 0.5\<close> the points are \<open>(t0, 0)\<close>,
  \<open>(t0 + 0.01, 0.5)\<close>, \<open>(t0 + 0.11, 0.35)\<close>, \<open>(t0 + 0.31, 0)\<close>.
\<close>

theorem envelope_schedule:
  assumes "reachable st"
    and "js_index (steps env) idx = Some nt" "NOTE_FREQS_get nt = Some (Num f)"
  shows "fst (nextStep env idx st) = Returned
     \<and> lastGainRef (snd (nextStep env idx st)) = Some (next_node st + 1)
     \<and> events (nodes (snd (nextStep env idx st)) (next_node st + 1)) =
         [SetValueAtTime 0 (currentTime st),
          LinearRampToValueAtTime (volume env) (currentTime st + adsr_a (adsr env)),
          LinearRampToValueAtTime (volume env * adsr_s (adsr env))
            (currentTime st + adsr_a (adsr env) + adsr_d (adsr env)),
          LinearRampToValueAtTime 0
            (currentTime st + adsr_a (adsr env) + adsr_d (adsr env) + adsr_r (adsr env))]
     \<and> (\<forall>g v s. events (nodes (cancelScheduledValues g (currentTime s) (set_value g v s)) g)
                  = filter (\<lambda>e. event_time e < currentTime s) (events (nodes s g)))
     \<and> (adsr env = \<lparr>adsr_a = 0.01, adsr_d = 0.1, adsr_s = 0.7, adsr_r = 0.2\<rparr>
          \<and> volume env = 0.5 \<longrightarrow>
         events (nodes (snd (nextStep env idx st)) (next_node st + 1)) =
           [SetValueAtTime 0 (currentTime st),
            LinearRampToValueAtTime 0.5 (currentTime st + 0.01),
            LinearRampToValueAtTime 0.35 (currentTime st + 0.11),
            LinearRampToValueAtTime 0 (currentTime st + 0.31)])"
proof -
  note e = nextStep_Num[OF reachable_parts(1)[OF assms(1)] assms(2,3)]
  have c: "\<forall>g v s. events (nodes (cancelScheduledValues g (currentTime s) (set_value g v s)) g)
                  = filter (\<lambda>e. event_time e < currentTime s) (events (nodes s g))"
    by (simp add: cancelScheduledValues_def set_value_def update_node_def)
  from c show ?thesis by (simp add: e)
qed

theorem envelope_schedule_witness:
  "reachable mounted \<and> js_index (steps (ui mounted)) (Ix 0) = Some ''E3''
   \<and> NOTE_FREQS_get ''E3'' = Some (Num 164.81)
   \<and> events (nodes (snd (nextStep (ui mounted) (Ix 0) mounted)) 4) =
       [SetValueAtTime 0 0, LinearRampToValueAtTime 0.5 0.01,
        LinearRampToValueAtTime 0.35 0.11, LinearRampToValueAtTime 0 0.31]"
  using envelope_schedule[OF reachable.init default_notes(1) default_notes(3)]
    reachable.init default_notes(1,3,7,8)
  by (simp add: mounted_fields(2,3))

subsection \<open>C3: tempo and sequence of a running playback\<close>

text \<open>
  Claim C3 says that the delay a tick schedules is \<open>60000 / bpm / 4\<close> ms for the tempo
  in effect when the tick fires, so that a tempo change is heard at the next tick. The
  code does not do that. Play is clicked at 120 bpm, the BPM knob is then set to 60, and
  the pending timer fires: the tick it runs schedules the next one after 125 ms, the
  interval of the tempo of the render in which Play was clicked, while the tempo in effect
  is 60 and its interval \<open>60000 / 60 / 4 = 250\<close> ms.
\<close>

theorem tempo_change_not_seen_by_running_playback:
  "bpm (ui (setBpm 60 (click_button mounted))) = 60
   \<and> timers (fire_timer 1 (setBpm 60 (click_button mounted))) 2
       = Some \<lparr>delay = 125, t_env = ui mounted, t_idx = Ix 1\<rparr>
   \<and> 60000 / bpm (ui (setBpm 60 (click_button mounted))) / 4 \<noteq> (125 :: real)"
proof -
  let ?s = "setBpm 60 (click_button mounted)"
  have t: "timers ?s 1 = Some \<lparr>delay = 125, t_env = ui mounted, t_idx = Ix 0\<rparr>"
    "playingRef ?s" "next_timer ?s = 2"
    using played(2,3,4) by (simp_all add: setBpm_def)
  have b: "bpm (ui ?s) = 60" by (simp add: setBpm_def clamp_def)
  let ?s' = "?s\<lparr>timers := (timers ?s)(1 := None)\<rparr>"
  have f: "fire_timer 1 ?s = snd (nextStep (ui mounted) (Ix 1) ?s')"
    using fire_playing[OF t(1,2)] by (simp add: default_notes(4))
  have r: "fst (nextStep (ui mounted) (Ix 1) ?s') = Returned"
  proof -
    have "persist_inv ?s"
      using reachable_parts(1)[OF reachable.edit_bpm[OF played(1), of 60]] .
    then have "persist_inv ?s'" by (simp add: persist_inv_def)
    then show ?thesis by (simp add: nextStep_Num[OF _ default_notes(2,3)])
  qed
  have "timers (fire_timer 1 ?s) 2
       = Some \<lparr>delay = 125, t_env = ui mounted, t_idx = Ix 1\<rparr>"
    using nextStep_timer(1)[OF r] t(3) f by (simp add: default_notes(5))
  then show ?thesis using b by simp
qed

subsection \<open>C4: transport\<close>

text \<open>
  Claim C4. In every reachable state: \<^verbatim>\<open>playSequence\<close> during playback changes
  nothing; otherwise it sets \<^verbatim>\<open>playing\<close> and \<^verbatim>\<open>playingRef\<close>, sets the current step
  to -1 and runs the tick of index 0 at once, inside the call. \<^verbatim>\<open>stopSequence\<close> leaves
  \<^verbatim>\<open>playing\<close> and \<^verbatim>\<open>playingRef\<close> false and the current step -1, no timer pending,
  the voice refs empty and no voice live, the oscillator the ref named being stopped and
  disconnected. On a stopped component \<^verbatim>\<open>stopSequence\<close> changes nothing. After it,
  the firing of any timer changes nothing, and in general the callback of a timer does
  nothing when \<^verbatim>\<open>playingRef\<close> is false.
\<close>

theorem transport_contract:
  assumes "reachable st"
  shows "(playingRef st \<longrightarrow> playSequence env st = (Returned, st))
     \<and> (\<not> playingRef st \<longrightarrow>
          playSequence env st =
            nextStep env (Ix 0)
              (st\<lparr>playing := True, playingRef := True, currentStep := Ix (- 1)\<rparr>))
     \<and> \<not> playing (stopSequence st) \<and> \<not> playingRef (stopSequence st)
     \<and> currentStep (stopSequence st) = Ix (- 1)
     \<and> (\<forall>t. timers (stopSequence st) t = None)
     \<and> lastOscRef (stopSequence st) = None \<and> lastGainRef (stopSequence st) = None
     \<and> lastFilterRef (stopSequence st) = None
     \<and> (\<forall>n. \<not> live_voice (stopSequence st) n)
     \<and> (\<forall>n. lastOscRef st = Some n \<longrightarrow>
            outputs (nodes (stopSequence st) n) = []
            \<and> stop_time (nodes (stopSequence st) n) = Some 0)
     \<and> (\<not> playingRef st \<longrightarrow> stopSequence st = st)
     \<and> (\<forall>t. fire_timer t (stopSequence st) = stopSequence st)
     \<and> (\<forall>s env' idx. \<not> playingRef s \<longrightarrow> timer_callback env' idx s = (Returned, s))"
proof -
  note i = reachable_parts[OF assms]
  note j = reachable_parts[OF reachable.cleanup[OF assms]]
  from i(1) have ctx: "audioCtxRef st" by (simp add: persist_inv_def)
  have play: "(playingRef st \<longrightarrow> playSequence env st = (Returned, st))
     \<and> (\<not> playingRef st \<longrightarrow>
          playSequence env st =
            nextStep env (Ix 0)
              (st\<lparr>playing := True, playingRef := True, currentStep := Ix (- 1)\<rparr>))"
    using ctx by (simp add: playSequence_def Let_def)
  have none: "\<forall>t. timers (stopSequence st) t = None"
    using j(3) by (auto simp add: transport_inv_def stopSequence_fields(2))
  have dead: "\<forall>n. \<not> live_voice (stopSequence st) n"
  proof
    fix n
    show "\<not> live_voice (stopSequence st) n"
    proof
      assume "live_voice (stopSequence st) n"
      then have "lastOscRef (stopSequence st) = Some n"
        using j(4) by (simp add: mono_inv_def live_voice_started_connected)
      then show False by (simp add: stopSequence_fields)
    qed
  qed
  have torn: "\<forall>n. lastOscRef st = Some n \<longrightarrow>
            outputs (nodes (stopSequence st) n) = []
            \<and> stop_time (nodes (stopSequence st) n) = Some 0"
  proof (intro allI impI)
    fix n
    assume r: "lastOscRef st = Some n"
    let ?s1 = "st\<lparr>playing := False, playingRef := False, currentStep := Ix (- 1)\<rparr>"
    have "outputs (nodes (stop_previous ?s1) n) = []
        \<and> stop_time (nodes (stop_previous ?s1) n) = Some 0"
      using r by (intro stop_previous_tears_down(1)) simp
    then show "outputs (nodes (stopSequence st) n) = []
            \<and> stop_time (nodes (stopSequence st) n) = Some 0"
      by (simp add: stopSequence_nodes)
  qed
  have idle: "\<not> playingRef st \<longrightarrow> stopSequence st = st"
    using stopSequence_idle[OF i(3)] by simp
  have fire: "\<forall>t. fire_timer t (stopSequence st) = stopSequence st"
    using none by (simp add: fire_timer_def)
  have guard: "\<forall>s env' idx. \<not> playingRef s \<longrightarrow> timer_callback env' idx s = (Returned, s)"
    by (simp add: timer_callback_def)
  from play none dead torn idle fire guard show ?thesis
    by (simp add: stopSequence_fields(1-6))
qed

theorem transport_contract_witness:
  "reachable (click_button mounted)
   \<and> playingRef (click_button mounted)
   \<and> playSequence (ui mounted) (click_button mounted) = (Returned, click_button mounted)
   \<and> timers (stopSequence (click_button mounted)) 1 = None
   \<and> \<not> live_voice (stopSequence (click_button mounted)) 3
   \<and> stop_time (nodes (stopSequence (click_button mounted)) 3) = Some 0
   \<and> stopSequence (stopSequence (click_button mounted)) = stopSequence (click_button mounted)
   \<and> fire_timer 1 (stopSequence (click_button mounted)) = stopSequence (click_button mounted)"
proof -
  note a = transport_contract[OF played(1), of "ui mounted"]
  note b = transport_contract[OF reachable.cleanup[OF played(1)], of "ui mounted"]
  from a b played(1,4,6) show ?thesis by simp
qed

subsection \<open>C5: rests\<close>




subsection \<open>C6: editing the envelope while a voice is live\<close>

text \<open>
  In every reachable state with a voice (gain node \<open>g\<close>), an ADSR edit made through the
  handler of the latest render stores the clamped value in the edited field and re-arms the
  gain: the points at or after the current audio-clock instant are dropped and four points
  follow, value 0 at that instant, then the ramps to the volume, to volume times sustain
  and to 0 after attack, attack plus decay and attack plus decay plus release, all computed
  from the envelope and volume of the render before the edit. The edited value does not
  occur in the schedule; it is in the stored envelope, which the next render and its
  handlers see.
\<close>

lemma handleAdsrChange_rearms:
  assumes "reachable st" "lastGainRef st = Some g"
  shows "events (nodes (handleAdsrChange (ui st) field val st) g) =
           filter (\<lambda>e. event_time e < currentTime st) (events (nodes st g)) @
           [SetValueAtTime 0 (currentTime st),
            LinearRampToValueAtTime (volume (ui st)) (currentTime st + adsr_a (adsr (ui st))),
            LinearRampToValueAtTime (volume (ui st) * adsr_s (adsr (ui st)))
              (currentTime st + adsr_a (adsr (ui st)) + adsr_d (adsr (ui st))),
            LinearRampToValueAtTime 0
              (currentTime st + adsr_a (adsr (ui st)) + adsr_d (adsr (ui st))
                 + adsr_r (adsr (ui st)))]
     \<and> adsr (ui (handleAdsrChange (ui st) field val st))
         = set_field field (clamp val 0 2) (adsr (ui st))"
proof -
  from reachable_parts(1)[OF assms(1)] have "audioCtxRef st" by (simp add: persist_inv_def)
  from handleAdsrChange_eq[OF this assms(2)] show ?thesis by simp
qed

text \<open>
  Claim C6 says that an edit re-arms the live voice with the envelope values from before the
  edit, and that the edited value is used by the next trigger. The first part holds
  (\<open>handleAdsrChange_rearms\<close>); the second does not hold during a playback. Play is
  clicked with the default envelope (attack 0.01 s) and volume 0.5, the attack knob is then
  set to 1, and 125 ms after Play the pending timer fires. The stored attack is 1, but the
  voice this tick triggers (gain node 7) ramps to the volume at \<open>0.125 + 0.01\<close>, with
  the attack of the render in which Play was clicked, and not at \<open>0.125 + 1\<close>.
\<close>

theorem edited_attack_not_used_by_next_trigger:
  "adsr_a (adsr (ui (fire_timer 1
       ((handleAdsrChange (ui (click_button mounted)) FieldA 1 (click_button mounted))
          \<lparr>currentTime := 0.125\<rparr>)))) = 1
   \<and> lastGainRef (fire_timer 1
       ((handleAdsrChange (ui (click_button mounted)) FieldA 1 (click_button mounted))
          \<lparr>currentTime := 0.125\<rparr>)) = Some 7
   \<and> events (nodes (fire_timer 1
       ((handleAdsrChange (ui (click_button mounted)) FieldA 1 (click_button mounted))
          \<lparr>currentTime := 0.125\<rparr>)) 7)
       = [SetValueAtTime 0 0.125, LinearRampToValueAtTime 0.5 0.135,
          LinearRampToValueAtTime 0.35 0.235, LinearRampToValueAtTime 0 0.435]"
proof -
  let ?p = "click_button mounted"
  let ?e = "handleAdsrChange (ui ?p) FieldA 1 ?p"
  let ?s = "?e\<lparr>currentTime := 0.125\<rparr>"
  have c: "audioCtxRef ?p"
    using reachable_parts(1)[OF played(1)] by (simp add: persist_inv_def)
  note h = handleAdsrChange_eq[OF c played(7), of "ui ?p" FieldA 1]
  have ct: "currentTime ?e = 0" by (simp add: h played(9))
  have "reachable (?e\<lparr>currentTime := currentTime ?e + 0.125\<rparr>)"
    by (rule reachable.clock[OF reachable.edit_adsr[OF played(1)]]) simp
  then have rs: "reachable ?s" by (simp add: ct)
  have t: "timers ?s 1 = Some \<lparr>delay = 125, t_env = ui mounted, t_idx = Ix 0\<rparr>"
    "playingRef ?s" "next_node ?s = 6" "adsr_a (adsr (ui ?s)) = 1" "currentTime ?s = 0.125"
    using played(2,4,5) by (simp_all add: h clamp_def)
  let ?s' = "?s\<lparr>timers := (timers ?s)(1 := None)\<rparr>"
  have f: "fire_timer 1 ?s = snd (nextStep (ui mounted) (Ix 1) ?s')"
    using fire_playing[OF t(1,2)] by (simp add: default_notes(4))
  have p: "persist_inv ?s'"
    using reachable_parts(1)[OF rs] by (simp add: persist_inv_def)
  note e = nextStep_Num[OF p default_notes(2,3)]
  have "adsr_a (adsr (ui (fire_timer 1 ?s))) = 1"
    using t(4) f by (simp add: nextStep_frame(1))
  moreover have "lastGainRef (fire_timer 1 ?s) = Some 7"
    using t(3) f e by simp
  moreover have "events (nodes (fire_timer 1 ?s) 7)
       = [SetValueAtTime 0 0.125, LinearRampToValueAtTime 0.5 0.135,
          LinearRampToValueAtTime 0.35 0.235, LinearRampToValueAtTime 0 0.435]"
    using t(3,5) f e by (simp add: default_notes(7,8))
  ultimately show ?thesis by simp
qed

subsection \<open>C7: the dry/wet mix\<close>

text \<open>
  Claim C7. In every reachable state the dry gain is node 0 and the wet gain is node 1.
  For every value of \<^verbatim>\<open>reverb\<close>, the effect of lines 142-145 changes the state in
  nothing but the gain parameter of these two nodes, its \<^verbatim>\<open>value\<close> and the point
  that the write of the value leaves on its timeline: the dry gain becomes
  \<open>1 - reverb\<close> and the wet gain \<open>reverb\<close>, so they sum to 1 (in exact arithmetic); no
  connection of any node changes, and the nodes of the current voice are untouched.
\<close>

theorem reverb_mix:
  assumes "reachable st"
  shows "dryGainRef st = Some 0 \<and> wetGainRef st = Some 1
     \<and> reverb_effect env st =
         st\<lparr>nodes := (nodes st)
              (0 := (nodes st 0)
                 \<lparr>param_value := 1 - reverb env,
                  events := events (nodes st 0)
                              @ [SetValueAtTime (1 - reverb env) (currentTime st)]\<rparr>,
               1 := (nodes st 1)
                 \<lparr>param_value := reverb env,
                  events := events (nodes st 1)
                              @ [SetValueAtTime (reverb env) (currentTime st)]\<rparr>)\<rparr>
     \<and> param_value (nodes (reverb_effect env st) 0) = 1 - reverb env
     \<and> param_value (nodes (reverb_effect env st) 1) = reverb env
     \<and> param_value (nodes (reverb_effect env st) 0)
         + param_value (nodes (reverb_effect env st) 1) = 1
     \<and> (\<forall>n. outputs (nodes (reverb_effect env st) n) = outputs (nodes st n))
     \<and> (\<forall>n. lastOscRef st = Some n \<or> lastGainRef st = Some n \<or> lastFilterRef st = Some n
            \<longrightarrow> nodes (reverb_effect env st) n = nodes st n)"
proof -
  from reachable_parts[OF assms] have p: "dryGainRef st = Some 0" "wetGainRef st = Some 1"
    and v: "voice_inv st"
    by (simp_all add: persist_inv_def)
  note eq = reverb_effect_eq[OF p]
  have "\<forall>n. lastOscRef st = Some n \<or> lastGainRef st = Some n \<or> lastFilterRef st = Some n
            \<longrightarrow> 3 \<le> n"
    using v by (cases "lastOscRef st") (auto simp add: voice_inv_def)
  then have "\<forall>n. lastOscRef st = Some n \<or> lastGainRef st = Some n \<or> lastFilterRef st = Some n
            \<longrightarrow> nodes (reverb_effect env st) n = nodes st n"
    by (auto simp add: eq)
  then show ?thesis using p by (simp add: eq)
qed

theorem reverb_mix_witness:
  "reachable mounted
   \<and> param_value (nodes (reverb_effect ((ui mounted)\<lparr>reverb := 0.25\<rparr>) mounted) 0) = 0.75
   \<and> param_value (nodes (reverb_effect ((ui mounted)\<lparr>reverb := 0.25\<rparr>) mounted) 1) = 0.25"
  using reverb_mix[OF reachable.init, of "(ui mounted)\<lparr>reverb := 0.25\<rparr>"] reachable.init
  by simp

subsection \<open>C8: voice creation\<close>

text \<open>
  In every reachable state, a tick whose slot resolves to a frequency of the pitch table
  returns and leaves a voice on three nodes it created: an oscillator whose frequency is
  the table's and whose waveform is the one of the render the tick closes over; a low-pass
  filter whose cutoff is that render's; a gain node whose automation starts with value 0
  at the creation instant. The oscillator feeds the filter, the filter the gain, and the
  gain both the dry gain (node 0) and the convolver (node 2). The oscillator is started at
  the creation instant and is scheduled to stop at that instant plus attack plus decay plus
  release. For the tick that the Play button runs, the render is the latest one, so the
  waveform and the cutoff are the current ones.
\<close>

lemma nextStep_voice:
  assumes "reachable st"
    and "js_index (steps env) idx = Some nt" "NOTE_FREQS_get nt = Some (Num f)"
  shows "fst (nextStep env idx st) = Returned
     \<and> map_of NOTE_FREQS nt = Some f
     \<and> lastOscRef (snd (nextStep env idx st)) = Some (next_node st)
     \<and> lastGainRef (snd (nextStep env idx st)) = Some (next_node st + 1)
     \<and> lastFilterRef (snd (nextStep env idx st)) = Some (next_node st + 2)
     \<and> dryGainRef st = Some 0 \<and> convolverRef st = Some 2
     \<and> nodes (snd (nextStep env idx st)) (next_node st) =
           \<lparr>kind = OscillatorNode, osc_type = waveform env, filter_type = ''lowpass'',
            param_value = f, events = [SetValueAtTime f (currentTime st)],
            outputs = [ToNode (next_node st + 2)],
            start_time = Some (currentTime st),
            stop_time = Some (currentTime st + adsr_a (adsr env) + adsr_d (adsr env)
                                + adsr_r (adsr env))\<rparr>
     \<and> nodes (snd (nextStep env idx st)) (next_node st + 2) =
           \<lparr>kind = BiquadFilterNode, osc_type = Sine, filter_type = ''lowpass'',
            param_value = filter_hz env,
            events = [SetValueAtTime (filter_hz env) (currentTime st)],
            outputs = [ToNode (next_node st + 1)],
            start_time = None, stop_time = None\<rparr>
     \<and> kind (nodes (snd (nextStep env idx st)) (next_node st + 1)) = GainNode
     \<and> hd (events (nodes (snd (nextStep env idx st)) (next_node st + 1)))
           = SetValueAtTime 0 (currentTime st)
     \<and> outputs (nodes (snd (nextStep env idx st)) (next_node st + 1)) = [ToNode 0, ToNode 2]
     \<and> (\<not> playing st \<and> env = ui st \<and> idx = Ix 0 \<longrightarrow>
          lastOscRef (click_button st) = Some (next_node st)
          \<and> osc_type (nodes (click_button st) (next_node st)) = waveform (ui st)
          \<and> lastFilterRef (click_button st) = Some (next_node st + 2)
          \<and> param_value (nodes (click_button st) (next_node st + 2)) = filter_hz (ui st))"
proof -
  note i = reachable_parts[OF assms(1)]
  note p = i(1)
  note e = nextStep_Num[OF p assms(2,3)]
  from assms(3) have m: "map_of NOTE_FREQS nt = Some f"
    by (simp add: NOTE_FREQS_get_def split: option.splits if_splits)
  from p have r: "dryGainRef st = Some 0" "convolverRef st = Some 2" "audioCtxRef st"
    by (simp_all add: persist_inv_def)
  have play: "\<not> playing st \<and> env = ui st \<and> idx = Ix 0 \<longrightarrow>
          lastOscRef (click_button st) = Some (next_node st)
          \<and> osc_type (nodes (click_button st) (next_node st)) = waveform (ui st)
          \<and> lastFilterRef (click_button st) = Some (next_node st + 2)
          \<and> param_value (nodes (click_button st) (next_node st + 2)) = filter_hz (ui st)"
  proof (intro impI)
    assume a: "\<not> playing st \<and> env = ui st \<and> idx = Ix 0"
    let ?p = "st\<lparr>playing := True, playingRef := True, currentStep := Ix (- 1)\<rparr>"
    from a i(3) have np: "\<not> playingRef st" by (simp add: transport_inv_def)
    have c: "click_button st = snd (nextStep (ui st) (Ix 0) ?p)"
      using a np r(3) by (simp add: click_play)
    from p have pp: "persist_inv ?p" by (simp add: persist_inv_def)
    have s: "js_index (steps (ui ?p)) (Ix 0) = Some nt" using assms(2) a by simp
    note e' = nextStep_Num[OF pp s assms(3)]
    show "lastOscRef (click_button st) = Some (next_node st)
          \<and> osc_type (nodes (click_button st) (next_node st)) = waveform (ui st)
          \<and> lastFilterRef (click_button st) = Some (next_node st + 2)
          \<and> param_value (nodes (click_button st) (next_node st + 2)) = filter_hz (ui st)"
      using e' by (simp add: c)
  qed
  show ?thesis using play by (simp add: e m r)
qed

text \<open>
  Claim C8 says that the oscillator of every new voice has the current waveform. The code
  does not do that during a playback. Play is clicked with the sine selected, the select is
  then set to sawtooth, and the pending timer fires. The edit reaches the voice that is
  live (oscillator node 3 becomes a sawtooth, line 153), but the voice the next tick builds
  (oscillator node 6) is a sine again, the waveform of the render in which Play was
  clicked, while the current waveform is the sawtooth. The other postconditions of the
  claim hold for every tick (\<open>nextStep_voice\<close>).
\<close>

theorem waveform_change_not_seen_by_next_voice:
  "waveform (ui (setWaveform Sawtooth (click_button mounted))) = Sawtooth
   \<and> osc_type (nodes (setWaveform Sawtooth (click_button mounted)) 3) = Sawtooth
   \<and> waveform (ui (fire_timer 1 (setWaveform Sawtooth (click_button mounted)))) = Sawtooth
   \<and> lastOscRef (fire_timer 1 (setWaveform Sawtooth (click_button mounted))) = Some 6
   \<and> osc_type (nodes (fire_timer 1 (setWaveform Sawtooth (click_button mounted))) 6) = Sine"
proof -
  let ?s = "setWaveform Sawtooth (click_button mounted)"
  have w: "waveform (ui (click_button mounted)) = Sine"
    by (simp add: played(8) default_notes(6))
  have t: "timers ?s 1 = Some \<lparr>delay = 125, t_env = ui mounted, t_idx = Ix 0\<rparr>"
    "playingRef ?s" "next_node ?s = 6" "waveform (ui ?s) = Sawtooth"
    using played(2,4,5,6) w
    by (simp_all add: setWaveform_def waveform_effect_def Let_def update_node_fields)
  have l: "osc_type (nodes ?s 3) = Sawtooth"
    using played(6) w
    by (simp add: setWaveform_def waveform_effect_def Let_def update_node_def)
  let ?s' = "?s\<lparr>timers := (timers ?s)(1 := None)\<rparr>"
  have f: "fire_timer 1 ?s = snd (nextStep (ui mounted) (Ix 1) ?s')"
    using fire_playing[OF t(1,2)] by (simp add: default_notes(4))
  have "persist_inv ?s"
    using reachable_parts(1)[OF reachable.edit_waveform[OF played(1), of Sawtooth]] .
  then have p: "persist_inv ?s'" by (simp add: persist_inv_def)
  note e = nextStep_Num[OF p default_notes(2,3)]
  have "waveform (ui (fire_timer 1 ?s)) = Sawtooth"
    using t(4) f by (simp add: nextStep_frame(1))
  moreover have "lastOscRef (fire_timer 1 ?s) = Some 6"
    using t(3) f e by simp
  moreover have "osc_type (nodes (fire_timer 1 ?s) 6) = Sine"
    using t(3) f e by (simp add: default_notes(6))
  ultimately show ?thesis using t(4) l by simp
qed

subsection \<open>C9: clamping of envelope edits\<close>



subsection \<open>C10: the oscillator of an edited voice\<close>

text \<open>
  Claim C10. In every reachable state with a voice (oscillator \<open>n\<close>, hence gain
  \<open>n + 1\<close>), an ADSR edit leaves the oscillator node as it was, its scheduled stop time
  included; it changes no node but the gain, on the gain nothing but the automation
  timeline, and in the rest of the state nothing but the stored envelope. The timeline it
  writes ends at the current instant plus attack plus decay plus release, wherever the
  oscillator's stop time lies.
\<close>

theorem adsr_edit_keeps_oscillator_stop:
  assumes "reachable st" "lastOscRef st = Some n"
  shows "nodes (handleAdsrChange env field val st) n = nodes st n
     \<and> stop_time (nodes (handleAdsrChange env field val st) n) = stop_time (nodes st n)
     \<and> lastGainRef st = Some (n + 1)
     \<and> (\<forall>m. m \<noteq> n + 1 \<longrightarrow> nodes (handleAdsrChange env field val st) m = nodes st m)
     \<and> (nodes (handleAdsrChange env field val st) (n + 1))
          \<lparr>events := events (nodes st (n + 1))\<rparr> = nodes st (n + 1)
     \<and> (handleAdsrChange env field val st)\<lparr>ui := ui st, nodes := nodes st\<rparr> = st
     \<and> last (events (nodes (handleAdsrChange env field val st) (n + 1)))
         = LinearRampToValueAtTime 0
             (currentTime st + adsr_a (adsr env) + adsr_d (adsr env) + adsr_r (adsr env))"
proof -
  note i = reachable_parts[OF assms(1)]
  from i(1) have c: "audioCtxRef st" by (simp add: persist_inv_def)
  from i(2) assms(2) have g: "lastGainRef st = Some (n + 1)" by (simp add: voice_inv_def)
  note e = handleAdsrChange_eq[OF c g, of env field val]
  show ?thesis by (simp add: e g)
qed

theorem adsr_edit_keeps_oscillator_stop_witness:
  "reachable ((click_button mounted)\<lparr>currentTime := currentTime (click_button mounted) + 0.1\<rparr>)
   \<and> lastOscRef ((click_button mounted)
        \<lparr>currentTime := currentTime (click_button mounted) + 0.1\<rparr>) = Some 3
   \<and> stop_time (nodes (handleAdsrChange (ui mounted) FieldR 2
         ((click_button mounted)\<lparr>currentTime := currentTime (click_button mounted) + 0.1\<rparr>)) 3)
       = Some 0.31
   \<and> last (events (nodes (handleAdsrChange (ui mounted) FieldR 2
         ((click_button mounted)\<lparr>currentTime := currentTime (click_button mounted) + 0.1\<rparr>)) 4))
       = LinearRampToValueAtTime 0 0.41"
proof -
  let ?s = "(click_button mounted)\<lparr>currentTime := currentTime (click_button mounted) + 0.1\<rparr>"
  have r: "reachable ?s" by (rule reachable.clock[OF played(1)]) simp
  have g: "lastOscRef ?s = Some 3" by (simp add: played(6))
  from adsr_edit_keeps_oscillator_stop[OF r g, of "ui mounted" FieldR 2] r g
  show ?thesis
    by (simp add: played(9,11) default_notes(7,8))
qed

end
